theory Spec2Isabelle
  imports Complex_Main "HOL-Library.Sublist" "HOL-Library.List_Lexorder" "HOL-Library.Option_ord"
begin

section \<open>Python strings\<close>

text \<open>
  A Python \<^verbatim>\<open>str\<close> is a sequence of Unicode code points. A code point is a natural
  number here, so every string the program can receive is a value of \<open>pystr\<close>;
  \<open>str_of\<close> turns an ASCII literal into one.
\<close>

type_synonym codepoint = nat
type_synonym pystr = "codepoint list"

definition str_of :: "string \<Rightarrow> pystr" where
  "str_of s = map of_char s"

text \<open>
  \<^verbatim>\<open>str.upper\<close>, \<^verbatim>\<open>str.lower\<close> and \<^verbatim>\<open>str.isspace\<close> are given by the interpreter's Unicode
  database, which is not part of the repository. They are parameters of the model:
  \<open>str_upper\<close> and \<open>str_lower\<close> map whole strings (the real \<^verbatim>\<open>upper\<close> may lengthen a
  string, the real \<^verbatim>\<open>lower\<close> looks at the context of a sigma), \<open>isspace\<close> is the
  predicate \<^verbatim>\<open>strip\<close> tests each end with.
\<close>

record unicode =
  str_upper :: "pystr \<Rightarrow> pystr"
  str_lower :: "pystr \<Rightarrow> pystr"
  isspace :: "codepoint \<Rightarrow> bool"

definition strip :: "unicode \<Rightarrow> pystr \<Rightarrow> pystr" where
  "strip U s = rev (dropWhile (isspace U) (rev (dropWhile (isspace U) s)))"

text \<open>
  The ASCII part of the Unicode database, which is what the interpreter does on ASCII
  input: letters change case, and the white space is TAB, LF, VT, FF, CR, FS, GS, RS, US
  and the blank.
\<close>

definition ascii_upper_char :: "codepoint \<Rightarrow> codepoint" where
  "ascii_upper_char c = (if 97 \<le> c \<and> c \<le> 122 then c - 32 else c)"

definition ascii_lower_char :: "codepoint \<Rightarrow> codepoint" where
  "ascii_lower_char c = (if 65 \<le> c \<and> c \<le> 90 then c + 32 else c)"

definition ascii_isspace :: "codepoint \<Rightarrow> bool" where
  "ascii_isspace c \<longleftrightarrow> (9 \<le> c \<and> c \<le> 13) \<or> (28 \<le> c \<and> c \<le> 32)"

definition ascii :: unicode where
  "ascii = \<lparr>str_upper = map ascii_upper_char, str_lower = map ascii_lower_char,
             isspace = ascii_isspace\<rparr>"

section \<open>Symbol normalization (ticker.py)\<close>

text \<open>The character classes of the three regular expressions of \<^verbatim>\<open>normalize_ticker\<close>.\<close>

definition is_AZ :: "codepoint \<Rightarrow> bool" where
  "is_AZ c \<longleftrightarrow> 65 \<le> c \<and> c \<le> 90"

definition is_09 :: "codepoint \<Rightarrow> bool" where
  "is_09 c \<longleftrightarrow> 48 \<le> c \<and> c \<le> 57"

definition c_dollar :: codepoint where "c_dollar = 36"
definition c_hyphen :: codepoint where "c_hyphen = 45"
definition c_dot :: codepoint where "c_dot = 46"
definition c_slash :: codepoint where "c_slash = 47"
definition c_colon :: codepoint where "c_colon = 58"

text \<open>\<^verbatim>\<open>[A-Z0-9.\-/]\<close>: the characters line 99 keeps.\<close>

definition keep_char :: "codepoint \<Rightarrow> bool" where
  "keep_char c \<longleftrightarrow> is_AZ c \<or> is_09 c \<or> c = c_dot \<or> c = c_hyphen \<or> c = c_slash"

text \<open>
  \<^verbatim>\<open>re.sub(r"^[A-Z]+:", "", sym)\<close>: the pattern is anchored at the start, so it matches at
  most once, and it matches exactly when the longest run of capitals at the start is not
  empty and a colon follows it (a shorter run is followed by a capital, not by a colon).
\<close>

definition strip_market_prefix :: "pystr \<Rightarrow> pystr" where
  "strip_market_prefix s =
     (case dropWhile is_AZ s of
        [] \<Rightarrow> s
      | c # rest \<Rightarrow> if takeWhile is_AZ s \<noteq> [] \<and> c = c_colon then rest else s)"

text \<open>
  \<^verbatim>\<open>re.fullmatch(r"[A-Z]{1,6}-[A-Z0-9]{1,3}", sym)\<close>: one to six capitals, a hyphen, one
  to three capitals or digits, and nothing else. The hyphen is no capital, so the
  capitals before it are the longest run of capitals at the start.
\<close>

definition share_class_match :: "pystr \<Rightarrow> bool" where
  "share_class_match s =
     (let l = takeWhile is_AZ s in
      1 \<le> length l \<and> length l \<le> 6 \<and>
      (case dropWhile is_AZ s of
         [] \<Rightarrow> False
       | c # r \<Rightarrow> c = c_hyphen \<and> 1 \<le> length r \<and> length r \<le> 3 \<and>
                  list_all (\<lambda>d. is_AZ d \<or> is_09 d) r))"

text \<open>\<^verbatim>\<open>sym.replace(a, b)\<close> for one-character \<open>a\<close> and \<open>b\<close>.\<close>

definition replace_char :: "codepoint \<Rightarrow> codepoint \<Rightarrow> pystr \<Rightarrow> pystr" where
  "replace_char a b s = map (\<lambda>c. if c = a then b else c) s"

text \<open>
  \<^verbatim>\<open>normalize_ticker\<close>, line by line. The \<^verbatim>\<open>lru_cache\<close> changes nothing a caller can see:
  the function is pure.
\<close>

definition normalize_ticker :: "unicode \<Rightarrow> pystr \<Rightarrow> pystr" where
  "normalize_ticker U sym0 =
     (let sym1 = str_upper U (strip U sym0) in
      if sym1 = [] then []
      else
        let sym2 = (case sym1 of c # rest \<Rightarrow> if c = c_dollar then rest else sym1 | [] \<Rightarrow> sym1);
            sym3 = strip_market_prefix sym2;
            sym4 = filter keep_char sym3;
            sym5 = replace_char c_slash c_dot sym4
        in if share_class_match sym5 then replace_char c_hyphen c_dot sym5 else sym5)"

text \<open>The characters a normalized symbol is made of: \<^verbatim>\<open>[A-Z0-9.\-]\<close>.\<close>

definition ticker_char :: "codepoint \<Rightarrow> bool" where
  "ticker_char c \<longleftrightarrow> is_AZ c \<or> is_09 c \<or> c = c_dot \<or> c = c_hyphen"

text \<open>
  What the idempotence of normalization needs of the Unicode database: a string of
  capitals, digits, dots and hyphens is its own upper case, and none of these characters
  is white space. The interpreter's database has both properties.
\<close>

definition unicode_fixes_tickers :: "unicode \<Rightarrow> bool" where
  "unicode_fixes_tickers U \<longleftrightarrow>
     (\<forall>s. list_all ticker_char s \<longrightarrow> str_upper U s = s) \<and>
     (\<forall>c. ticker_char c \<longrightarrow> \<not> isspace U c)"

section \<open>Sentiment merge (analyzer.py)\<close>

datatype sentiment = Bullish | Bearish | Neutral

text \<open>
  A Python \<^verbatim>\<open>dict\<close> keeps its keys in insertion order: assigning to a key that is present
  changes the value where it stands, assigning to a new key appends it. \<open>dict_set\<close> is
  \<^verbatim>\<open>out[k] = v\<close>, \<open>map_of out k\<close> is the lookup, and the list itself is
  \<^verbatim>\<open>list(out.items())\<close>.
\<close>

fun dict_set :: "'k \<Rightarrow> 'v \<Rightarrow> ('k \<times> 'v) list \<Rightarrow> ('k \<times> 'v) list" where
  "dict_set k v [] = [(k, v)]"
| "dict_set k v (p # ps) = (if fst p = k then (k, v) # ps else p # dict_set k v ps)"

text \<open>One round of the loop of lines 57 to 66, for the mention \<open>(ticker, s)\<close>.\<close>

definition merge_step ::
  "unicode \<Rightarrow> (pystr \<times> sentiment) list \<Rightarrow> pystr \<times> sentiment \<Rightarrow> (pystr \<times> sentiment) list"
where
  "merge_step U out m =
     (let t = normalize_ticker U (fst m); s = snd m in
      if t = [] then out
      else if map_of out t \<noteq> None \<and> map_of out t \<noteq> Some s then dict_set t Neutral out
      else dict_set t s out)"

text \<open>Lines 56 to 68: what \<^verbatim>\<open>analyze_comment\<close> returns for the mentions the service sent.\<close>

definition merge_mentions :: "unicode \<Rightarrow> (pystr \<times> sentiment) list \<Rightarrow> (pystr \<times> sentiment) list" where
  "merge_mentions U ms = foldl (merge_step U) [] ms"

text \<open>
  The merge as the specification words it. \<open>occurrences\<close> lists the sentiments of the
  mentions whose symbol normalizes to \<open>t\<close>; \<open>merged_sentiment_spec\<close> is the sentiment
  of a symbol with these occurrences: none if there are none, the common sentiment if
  they agree, neutral otherwise.
\<close>

definition occurrences :: "unicode \<Rightarrow> (pystr \<times> sentiment) list \<Rightarrow> pystr \<Rightarrow> sentiment list" where
  "occurrences U ms t = map snd (filter (\<lambda>m. normalize_ticker U (fst m) = t) ms)"

fun merged_sentiment_spec :: "sentiment list \<Rightarrow> sentiment option" where
  "merged_sentiment_spec [] = None"
| "merged_sentiment_spec (s # ss) = (if list_all (\<lambda>x. x = s) ss then Some s else Some Neutral)"

text \<open>
  For the proofs: how one more occurrence changes the sentiment that the dictionary holds
  for a symbol (lines 63 to 66, seen from one key).
\<close>

definition absorb :: "sentiment option \<Rightarrow> sentiment \<Rightarrow> sentiment option" where
  "absorb cur s = (if cur \<noteq> None \<and> cur \<noteq> Some s then Some Neutral else Some s)"

section \<open>The store (db.py)\<close>

text \<open>
  The tables of \<^verbatim>\<open>init_db\<close> that the analysis reads and writes. Of \<^verbatim>\<open>comments\<close> only the
  columns that the functions below read are kept (the others are the submission's id and
  title, the author, the score and the time of scraping). \<^verbatim>\<open>created_utc\<close> may be NULL,
  which is \<open>None\<close>; SQLite orders NULL below every integer, as the order on \<open>option\<close>
  does.
\<close>

record comment_row =
  comment_id :: pystr
  subreddit :: pystr
  created_utc :: "int option"
  body :: pystr

datatype status = Ok | Skipped | Error

record analysis_row =
  a_tag :: pystr
  a_comment_id :: pystr
  a_model :: pystr
  a_analyzed_at :: int
  a_status :: status
  a_error :: "pystr option"

record mention_row =
  m_tag :: pystr
  m_comment_id :: pystr
  m_ticker :: pystr
  m_sentiment :: sentiment
  m_model :: pystr
  m_analyzed_at :: int

record db =
  comments :: "comment_row list"
  comment_analysis :: "analysis_row list"
  mentions :: "mention_row list"

text \<open>The primary keys of \<^verbatim>\<open>comment_analysis\<close> and \<^verbatim>\<open>mentions\<close>.\<close>

definition analysis_key :: "analysis_row \<Rightarrow> pystr \<times> pystr" where
  "analysis_key a = (a_tag a, a_comment_id a)"

definition mention_key :: "mention_row \<Rightarrow> pystr \<times> pystr \<times> pystr" where
  "mention_key m = (m_tag m, m_comment_id m, m_ticker m)"

text \<open>
  \<^verbatim>\<open>INSERT OR REPLACE\<close>: SQLite deletes every row that has the new row's primary key and
  then inserts the new row.
\<close>

definition insert_or_replace :: "('r \<Rightarrow> 'k) \<Rightarrow> 'r \<Rightarrow> 'r list \<Rightarrow> 'r list" where
  "insert_or_replace key r rows = filter (\<lambda>x. key x \<noteq> key r) rows @ [r]"

text \<open>
  The statements that the analysis sends to the connection. \<open>DeleteMentions tag chunk\<close>
  is \<^verbatim>\<open>DELETE FROM mentions WHERE analysis_tag = ? AND ticker IN (?, ..., ?)\<close> with one
  parameter for each symbol of the chunk.
\<close>

datatype stmt =
    InsertAnalysis analysis_row
  | InsertMention mention_row
  | DeleteMentions pystr "pystr list"
  | Commit

fun exec_stmt :: "stmt \<Rightarrow> db \<Rightarrow> db" where
  "exec_stmt (InsertAnalysis r) d =
     d\<lparr>comment_analysis := insert_or_replace analysis_key r (comment_analysis d)\<rparr>"
| "exec_stmt (InsertMention r) d =
     d\<lparr>mentions := insert_or_replace mention_key r (mentions d)\<rparr>"
| "exec_stmt (DeleteMentions tag chunk) d =
     d\<lparr>mentions := filter (\<lambda>m. \<not> (m_tag m = tag \<and> m_ticker m \<in> set chunk)) (mentions d)\<rparr>"
| "exec_stmt Commit d = d"

text \<open>
  A connection: the tables as the connection sees them, the tables as of the last commit,
  and every statement sent so far, the latest first.
\<close>

record conn =
  tables :: db
  durable :: db
  history :: "stmt list"

definition execute :: "stmt \<Rightarrow> conn \<Rightarrow> conn" where
  "execute st c = c\<lparr>tables := exec_stmt st (tables c), history := st # history c\<rparr>"

definition commit :: "conn \<Rightarrow> conn" where
  "commit c = c\<lparr>durable := tables c, history := Commit # history c\<rparr>"

text \<open>
  The writers of db.py. \<open>now\<close> is \<^verbatim>\<open>int(time.time())\<close>, read by each of them when it is
  called.
\<close>

definition mark_analyzed_ok :: "int \<Rightarrow> pystr \<Rightarrow> pystr \<Rightarrow> pystr \<Rightarrow> conn \<Rightarrow> conn" where
  "mark_analyzed_ok now tag cid model c =
     execute (InsertAnalysis \<lparr>a_tag = tag, a_comment_id = cid, a_model = model,
       a_analyzed_at = now, a_status = Ok, a_error = None\<rparr>) c"

definition mark_analyzed_skipped :: "int \<Rightarrow> pystr \<Rightarrow> pystr \<Rightarrow> pystr \<Rightarrow> conn \<Rightarrow> conn" where
  "mark_analyzed_skipped now tag cid model c =
     execute (InsertAnalysis \<lparr>a_tag = tag, a_comment_id = cid, a_model = model,
       a_analyzed_at = now, a_status = Skipped, a_error = None\<rparr>) c"

definition mark_analyzed_error :: "int \<Rightarrow> pystr \<Rightarrow> pystr \<Rightarrow> pystr \<Rightarrow> pystr \<Rightarrow> conn \<Rightarrow> conn" where
  "mark_analyzed_error now tag cid model err c =
     execute (InsertAnalysis \<lparr>a_tag = tag, a_comment_id = cid, a_model = model,
       a_analyzed_at = now, a_status = Error, a_error = Some (take 2000 err)\<rparr>) c"

text \<open>\<^verbatim>\<open>executemany\<close> runs the statement once for each row, in order.\<close>

definition save_mentions ::
  "int \<Rightarrow> pystr \<Rightarrow> pystr \<Rightarrow> pystr \<Rightarrow> (pystr \<times> sentiment) list \<Rightarrow> conn \<Rightarrow> conn"
where
  "save_mentions now tag cid model sentiment_rows c =
     foldl (\<lambda>c' ts. execute (InsertMention \<lparr>m_tag = tag, m_comment_id = cid, m_ticker = fst ts,
       m_sentiment = snd ts, m_model = model, m_analyzed_at = now\<rparr>) c') c sentiment_rows"

subsection \<open>Candidate selection\<close>

text \<open>
  \<^verbatim>\<open>comments c LEFT JOIN comment_analysis a ON a.comment_id = c.comment_id AND
  a.analysis_tag = ?\<close>: each comment with each of its status rows for the tag, or with NULL
  if it has none.
\<close>

definition left_join :: "db \<Rightarrow> pystr \<Rightarrow> (comment_row \<times> analysis_row option) list" where
  "left_join d tag =
     concat (map (\<lambda>c.
       case filter (\<lambda>a. a_comment_id a = comment_id c \<and> a_tag a = tag) (comment_analysis d) of
         [] \<Rightarrow> [(c, None)]
       | r # rs \<Rightarrow> map (\<lambda>a. (c, Some a)) (r # rs)) (comments d))"

text \<open>
  The \<^verbatim>\<open>WHERE\<close> clause. The filter on the subreddit is there when \<^verbatim>\<open>subreddits\<close> is
  neither \<^verbatim>\<open>None\<close> nor empty.
\<close>

definition status_selected :: "bool \<Rightarrow> bool \<Rightarrow> analysis_row option \<Rightarrow> bool" where
  "status_selected retry_errors include_skipped a =
     (case a of
        None \<Rightarrow> True
      | Some r \<Rightarrow> (retry_errors \<and> a_status r = Error) \<or> (include_skipped \<and> a_status r = Skipped))"

definition subreddit_selected :: "pystr list option \<Rightarrow> comment_row \<Rightarrow> bool" where
  "subreddit_selected subreddits c =
     (case subreddits of
        None \<Rightarrow> True
      | Some subs \<Rightarrow> subs = [] \<or> subreddit c \<in> set subs)"

definition eligible_rows ::
  "db \<Rightarrow> pystr \<Rightarrow> bool \<Rightarrow> pystr list option \<Rightarrow> bool \<Rightarrow> (comment_row \<times> analysis_row option) list"
where
  "eligible_rows d tag retry_errors subreddits include_skipped =
     filter (\<lambda>ca. status_selected retry_errors include_skipped (snd ca) \<and>
                  subreddit_selected subreddits (fst ca)) (left_join d tag)"

text \<open>
  \<^verbatim>\<open>ORDER BY c.created_utc DESC\<close>, and \<^verbatim>\<open>LIMIT ?\<close>: SQLite takes a negative limit as no
  limit.
\<close>

definition order_by_created_desc ::
  "(comment_row \<times> analysis_row option) list \<Rightarrow> (comment_row \<times> analysis_row option) list"
where
  "order_by_created_desc rows = rev (sort_key (\<lambda>ca. created_utc (fst ca)) rows)"

definition sql_limit :: "int \<Rightarrow> 'a list \<Rightarrow> 'a list" where
  "sql_limit n rows = (if n < 0 then rows else take (nat n) rows)"

definition fetch_rows ::
  "db \<Rightarrow> pystr \<Rightarrow> int \<Rightarrow> bool \<Rightarrow> pystr list option \<Rightarrow> bool \<Rightarrow> (comment_row \<times> analysis_row option) list"
where
  "fetch_rows d tag limit retry_errors subreddits include_skipped =
     sql_limit limit
       (order_by_created_desc (eligible_rows d tag retry_errors subreddits include_skipped))"

definition fetch_candidates ::
  "db \<Rightarrow> pystr \<Rightarrow> int \<Rightarrow> bool \<Rightarrow> pystr list option \<Rightarrow> bool \<Rightarrow> (pystr \<times> pystr) list"
where
  "fetch_candidates d tag limit retry_errors subreddits include_skipped =
     map (\<lambda>ca. (comment_id (fst ca), body (fst ca)))
       (fetch_rows d tag limit retry_errors subreddits include_skipped)"

text \<open>The status values that the table holds for a record under a tag.\<close>

definition status_of :: "db \<Rightarrow> pystr \<Rightarrow> pystr \<Rightarrow> status list" where
  "status_of d tag cid =
     map a_status (filter (\<lambda>a. a_comment_id a = cid \<and> a_tag a = tag) (comment_analysis d))"

subsection \<open>Deleting the mentions of rejected symbols\<close>

text \<open>\<^verbatim>\<open>dict.fromkeys(xs)\<close> keeps the first occurrence of each element, in order.\<close>

fun fromkeys :: "'a list \<Rightarrow> 'a list" where
  "fromkeys [] = []"
| "fromkeys (x # xs) = x # filter (\<lambda>y. y \<noteq> x) (fromkeys xs)"

text \<open>
  The chunks of the loop of line 350: \<^verbatim>\<open>ticker_list[i:i + 900]\<close> for \<open>i\<close> in
  \<^verbatim>\<open>range(0, len(ticker_list), 900)\<close>.
\<close>

definition chunk_size :: nat where
  "chunk_size = 900"

definition chunks :: "'a list \<Rightarrow> 'a list list" where
  "chunks xs =
     map (\<lambda>k. take chunk_size (drop (k * chunk_size) xs))
       [0 ..< (length xs + chunk_size - 1) div chunk_size]"

text \<open>
  One round of the loop: the statement, and its \<^verbatim>\<open>rowcount\<close> added to \<^verbatim>\<open>deleted\<close>.
\<close>

definition delete_chunk :: "pystr \<Rightarrow> conn \<times> nat \<Rightarrow> pystr list \<Rightarrow> conn \<times> nat" where
  "delete_chunk tag cd chunk =
     (let c' = execute (DeleteMentions tag chunk) (fst cd)
      in (c', snd cd + (length (mentions (tables (fst cd))) - length (mentions (tables c')))))"

text \<open>Line 343: the symbols without repetition and without the empty string.\<close>

definition ticker_list :: "pystr list \<Rightarrow> pystr list" where
  "ticker_list tickers = filter (\<lambda>t. t \<noteq> []) (fromkeys tickers)"

definition delete_mentions_for_tickers :: "conn \<Rightarrow> pystr \<Rightarrow> pystr list \<Rightarrow> conn \<times> nat" where
  "delete_mentions_for_tickers c tag tickers =
     (if ticker_list tickers = [] then (c, 0)
      else foldl (delete_chunk tag) (c, 0) (chunks (ticker_list tickers)))"

section \<open>The post-run validator (ticker.py, pipeline.py)\<close>

text \<open>
  \<^verbatim>\<open>fetch_distinct_mentioned_tickers\<close> without a subreddit filter, as the validator calls
  it: the distinct symbols of the tag's mentions, the empty one left out.
\<close>

definition fetch_distinct_mentioned_tickers :: "db \<Rightarrow> pystr \<Rightarrow> pystr list" where
  "fetch_distinct_mentioned_tickers d tag =
     filter (\<lambda>t. t \<noteq> [])
       (remdups (map m_ticker (filter (\<lambda>m. m_tag m = tag) (mentions d))))"

text \<open>
  The loop of \<^verbatim>\<open>find_invalid_tickers\<close>, with its two sets \<^verbatim>\<open>seen\<close> and \<^verbatim>\<open>invalid\<close>.
  \<open>is_real\<close> is \<^verbatim>\<open>is_real_ticker_yf\<close>, the answer of the external oracle.
\<close>

fun find_invalid_loop ::
  "unicode \<Rightarrow> (pystr \<Rightarrow> bool) \<Rightarrow> pystr list \<Rightarrow> pystr list \<Rightarrow> pystr list \<Rightarrow> pystr list"
where
  "find_invalid_loop U is_real [] seen invalid = invalid"
| "find_invalid_loop U is_real (t # ts) seen invalid =
     (let tt = normalize_ticker U t in
      if tt = [] \<or> tt \<in> set seen then find_invalid_loop U is_real ts seen invalid
      else find_invalid_loop U is_real ts (tt # seen)
             (if \<not> is_real tt then tt # invalid else invalid))"

definition find_invalid_tickers ::
  "unicode \<Rightarrow> bool \<Rightarrow> (pystr \<Rightarrow> bool) \<Rightarrow> pystr list \<Rightarrow> pystr list"
where
  "find_invalid_tickers U enable_yfinance_validation is_real tickers =
     (if \<not> enable_yfinance_validation then []
      else find_invalid_loop U is_real tickers [] [])"

text \<open>
  \<^verbatim>\<open>_cleanup_invalid_tickers\<close>. \<^verbatim>\<open>sorted(invalid)\<close> orders the strings by code points, which
  is the lexicographic order of the lists.
\<close>

definition cleanup_invalid_tickers ::
  "unicode \<Rightarrow> bool \<Rightarrow> (pystr \<Rightarrow> bool) \<Rightarrow> conn \<Rightarrow> pystr \<Rightarrow> conn \<times> nat"
where
  "cleanup_invalid_tickers U enable_yfinance_validation is_real c tag =
     (if \<not> enable_yfinance_validation then (c, 0)
      else
        let tickers = fetch_distinct_mentioned_tickers (tables c) tag in
        if tickers = [] then (c, 0)
        else
          let invalid = find_invalid_tickers U enable_yfinance_validation is_real tickers in
          if invalid = [] then (c, 0)
          else
            let r = delete_mentions_for_tickers c tag (sort invalid)
            in (commit (fst r), snd r))"

text \<open>For the proofs: the rows that \<^verbatim>\<open>save_mentions\<close> sends.\<close>

definition mention_rows ::
  "int \<Rightarrow> pystr \<Rightarrow> pystr \<Rightarrow> pystr \<Rightarrow> (pystr \<times> sentiment) list \<Rightarrow> mention_row list"
where
  "mention_rows now tag cid model sentiment_rows =
     map (\<lambda>ts. \<lparr>m_tag = tag, m_comment_id = cid, m_ticker = fst ts, m_sentiment = snd ts,
       m_model = model, m_analyzed_at = now\<rparr>) sentiment_rows"

section \<open>The scheduler (pipeline.py)\<close>

subsection \<open>Failures of the extraction call\<close>

text \<open>
  An exception is seen by the scheduler through \<^verbatim>\<open>isinstance\<close>, \<^verbatim>\<open>type(e).__name__\<close> and
  \<^verbatim>\<open>str(e)\<close>. \<open>exc_classes\<close> lists the classes of the \<^verbatim>\<open>openai\<close> package, among those
  the scheduler tests for, that the exception is an instance of.
\<close>

datatype exc_class =
    AuthenticationError
  | PermissionDeniedError
  | RateLimitError
  | APITimeoutError
  | APIConnectionError
  | InternalServerError

record exc =
  exc_classes :: "exc_class list"
  exc_type_name :: pystr
  exc_str :: pystr

definition isinstance :: "exc \<Rightarrow> exc_class list \<Rightarrow> bool" where
  "isinstance e classes = list_ex (\<lambda>k. k \<in> set (exc_classes e)) classes"

text \<open>\<^verbatim>\<open>x in msg\<close> on strings is the test for a contiguous substring.\<close>

definition is_quota_exhausted :: "unicode \<Rightarrow> exc \<Rightarrow> bool" where
  "is_quota_exhausted U e =
     (let msg = str_lower U (exc_str e) in
      sublist (str_of ''insufficient_quota'') msg \<or>
      (sublist (str_of ''quota'') msg \<and>
       (sublist (str_of ''exceed'') msg \<or> sublist (str_of ''exceeded'') msg)))"

definition is_retryable :: "exc \<Rightarrow> bool" where
  "is_retryable e =
     isinstance e [RateLimitError, APITimeoutError, APIConnectionError, InternalServerError]"

definition is_fatal_auth :: "exc \<Rightarrow> bool" where
  "is_fatal_auth e = isinstance e [AuthenticationError, PermissionDeniedError]"

text \<open>
  \<^verbatim>\<open>min(1.0 * (2 ** attempt), 20.0)\<close>, in seconds. The product converts the integer
  power to a float, which raises \<^verbatim>\<open>OverflowError\<close> from \<open>2 ** 1024\<close> on: that is \<open>None\<close>.
\<close>

definition backoff_seconds :: "nat \<Rightarrow> nat option" where
  "backoff_seconds attempt = (if 1024 \<le> attempt then None else Some (min (2 ^ attempt) 20))"

text \<open>\<^verbatim>\<open>f"{type(e).__name__}: {e}"\<close>\<close>

definition error_text :: "exc \<Rightarrow> pystr" where
  "error_text e = exc_type_name e @ str_of '': '' @ exc_str e"

subsection \<open>The run and its surroundings\<close>

datatype stop_reason = Timeout | CtrlC | Quota

record outcome =
  analyzed :: nat
  errors :: nat
  analyzed_model_calls :: nat
  stopped_reason :: "stop_reason option"

text \<open>
  What the scheduler is called with, and the module-level switches of ticker.py.
  \<open>has_finance_hint\<close> is the keyword test and \<open>is_real_ticker_yf\<close> the oracle of the
  validator; the properties below hold whatever they answer.
\<close>

record config =
  cfg_unicode :: unicode
  analysis_tag :: pystr
  model :: pystr
  limit :: int
  retry_errors :: bool
  subreddits :: "pystr list option"
  timeout_seconds :: "int option"
  have_api_key :: bool
  enable_keyword_shortcut :: bool
  enable_yfinance_validation :: bool
  has_finance_hint :: "pystr \<Rightarrow> bool"
  is_real_ticker_yf :: "pystr \<Rightarrow> bool"

text \<open>Line 247: there is a deadline when \<^verbatim>\<open>timeout_seconds\<close> is neither \<^verbatim>\<open>None\<close> nor 0.\<close>

definition has_deadline :: "config \<Rightarrow> bool" where
  "has_deadline P = (case timeout_seconds P of None \<Rightarrow> False | Some n \<Rightarrow> n \<noteq> 0)"

text \<open>
  What the run observes of the world, in the order in which it asks: the answers of
  \<^verbatim>\<open>_should_abort()\<close>, the answers of the test \<^verbatim>\<open>_now() >= deadline\<close>, and the readings of
  \<^verbatim>\<open>time.time()\<close> by the writers. When a list is used up, no key is pressed, the deadline
  is not reached, and the clock reads 0. Sleeping and pacing change nothing but the time,
  which the run sees through these answers only.
\<close>

record world =
  abort_polls :: "bool list"
  deadline_polls :: "bool list"
  clock :: "int list"

record run =
  r_conn :: conn
  r_outcome :: outcome
  r_world :: world

definition should_abort :: "run \<Rightarrow> bool \<times> run" where
  "should_abort r =
     (case abort_polls (r_world r) of
        [] \<Rightarrow> (False, r)
      | b # bs \<Rightarrow> (b, r\<lparr>r_world := (r_world r)\<lparr>abort_polls := bs\<rparr>\<rparr>))"

definition deadline_reached :: "config \<Rightarrow> run \<Rightarrow> bool \<times> run" where
  "deadline_reached P r =
     (if \<not> has_deadline P then (False, r)
      else case deadline_polls (r_world r) of
        [] \<Rightarrow> (False, r)
      | b # bs \<Rightarrow> (b, r\<lparr>r_world := (r_world r)\<lparr>deadline_polls := bs\<rparr>\<rparr>))"

definition time_time :: "run \<Rightarrow> int \<times> run" where
  "time_time r =
     (case clock (r_world r) of
        [] \<Rightarrow> (0, r)
      | t # ts \<Rightarrow> (t, r\<lparr>r_world := (r_world r)\<lparr>clock := ts\<rparr>\<rparr>))"

text \<open>
  An attempt of the extraction call: the mentions that the service sent, an exception, or
  a \<^verbatim>\<open>KeyboardInterrupt\<close> while pacing or calling.
\<close>

datatype response =
    Parsed "(pystr \<times> sentiment) list"
  | Raises exc
  | Interrupt

text \<open>
  How a run ends: it returns its outcome, an exception of the extraction call leaves it,
  the backoff overflows, the API key is missing, or the list of responses is used up while
  the run still retries (the run has not ended).
\<close>

datatype result =
    Returned outcome
  | Raised exc
  | RaisedOverflow
  | RaisedMissingKey
  | Unfinished

subsection \<open>The steps of the run\<close>

text \<open>Lines 317 to 324: the writes of a successful extraction.\<close>

definition store_result ::
  "int \<Rightarrow> int \<Rightarrow> pystr \<Rightarrow> pystr \<Rightarrow> pystr \<Rightarrow> (pystr \<times> sentiment) list \<Rightarrow> conn \<Rightarrow> conn"
where
  "store_result t1 t2 tag cid mdl rows c =
     mark_analyzed_ok t2 tag cid mdl (save_mentions t1 tag cid mdl rows c)"

definition do_store_result :: "config \<Rightarrow> pystr \<Rightarrow> (pystr \<times> sentiment) list \<Rightarrow> run \<Rightarrow> run" where
  "do_store_result P cid rows r =
     (let (t1, r1) = time_time r; (t2, r2) = time_time r1
      in r2\<lparr>r_conn := store_result t1 t2 (analysis_tag P) cid (model P) rows (r_conn r2)\<rparr>)"

definition do_mark_ok :: "config \<Rightarrow> pystr \<Rightarrow> run \<Rightarrow> run" where
  "do_mark_ok P cid r =
     (let (t, r1) = time_time r
      in r1\<lparr>r_conn := mark_analyzed_ok t (analysis_tag P) cid (model P) (r_conn r1)\<rparr>)"

definition do_mark_error :: "config \<Rightarrow> pystr \<Rightarrow> pystr \<Rightarrow> run \<Rightarrow> run" where
  "do_mark_error P cid err r =
     (let (t, r1) = time_time r
      in r1\<lparr>r_conn := mark_analyzed_error t (analysis_tag P) cid (model P) err (r_conn r1)\<rparr>)"

definition do_commit :: "run \<Rightarrow> run" where
  "do_commit r = r\<lparr>r_conn := commit (r_conn r)\<rparr>"

definition do_cleanup :: "config \<Rightarrow> run \<Rightarrow> run" where
  "do_cleanup P r =
     r\<lparr>r_conn := fst (cleanup_invalid_tickers (cfg_unicode P) (enable_yfinance_validation P)
          (is_real_ticker_yf P) (r_conn r) (analysis_tag P))\<rparr>"

definition set_reason :: "stop_reason \<Rightarrow> run \<Rightarrow> run" where
  "set_reason reason r = r\<lparr>r_outcome := (r_outcome r)\<lparr>stopped_reason := Some reason\<rparr>\<rparr>"

definition inc_analyzed :: "run \<Rightarrow> run" where
  "inc_analyzed r = r\<lparr>r_outcome := (r_outcome r)\<lparr>analyzed := analyzed (r_outcome r) + 1\<rparr>\<rparr>"

definition inc_errors :: "run \<Rightarrow> run" where
  "inc_errors r = r\<lparr>r_outcome := (r_outcome r)\<lparr>errors := errors (r_outcome r) + 1\<rparr>\<rparr>"

definition inc_calls :: "run \<Rightarrow> run" where
  "inc_calls r =
     r\<lparr>r_outcome := (r_outcome r)\<lparr>analyzed_model_calls := analyzed_model_calls (r_outcome r) + 1\<rparr>\<rparr>"

text \<open>
  The three ways to stop with an outcome. Lines 282 to 286 and 306 to 310 for the
  deadline; lines 332 to 336 and 381 to 384 for \<^verbatim>\<open>KeyboardInterrupt\<close>, raised by the poll or
  caught around the call.
\<close>

definition stop_timeout :: "config \<Rightarrow> run \<Rightarrow> result \<times> run" where
  "stop_timeout P r =
     (let r' = do_cleanup P (do_commit (set_reason Timeout r)) in (Returned (r_outcome r'), r'))"

definition stop_ctrl_c :: "config \<Rightarrow> run \<Rightarrow> result \<times> run" where
  "stop_ctrl_c P r =
     (let r' = do_cleanup P (set_reason CtrlC (do_commit r)) in (Returned (r_outcome r'), r'))"

text \<open>
  Lines 344 to 353, the stop on an exhausted quota, and lines 363 to 371, the error of one
  item.
\<close>

definition quota_stop :: "config \<Rightarrow> pystr \<Rightarrow> exc \<Rightarrow> run \<Rightarrow> run" where
  "quota_stop P cid e r =
     do_cleanup P (set_reason Quota (do_commit (do_mark_error P cid (error_text e) r)))"

definition item_error :: "config \<Rightarrow> pystr \<Rightarrow> exc \<Rightarrow> run \<Rightarrow> run" where
  "item_error P cid e r = do_commit (inc_errors (do_mark_error P cid (error_text e) r))"

text \<open>
  Lines 338 to 372: what the handler does with an exception of the call, and how the
  retry loop goes on: the exception is raised again, the run returns its outcome, the
  attempt is repeated, or the loop is left for the next candidate.
\<close>

datatype action = Reraise | Return | Retry | Break

definition handle_exception :: "config \<Rightarrow> pystr \<Rightarrow> exc \<Rightarrow> run \<Rightarrow> action \<times> run" where
  "handle_exception P cid e r =
     (if is_fatal_auth e then (Reraise, do_commit r)
      else if isinstance e [RateLimitError] \<and> is_quota_exhausted (cfg_unicode P) e then
        (Return, quota_stop P cid e r)
      else if is_retryable e then (Retry, r)
      else (Break, item_error P cid e r))"

text \<open>
  Lines 325 to 328, and lines 295 to 297 on the shortcut path: the counter, and the commit
  when it reaches a multiple of \<open>every\<close>, which is 10 at line 327 and 50 at line 296.
\<close>

definition count_analyzed :: "nat \<Rightarrow> run \<Rightarrow> run" where
  "count_analyzed every r =
     (let r' = inc_analyzed r
      in if analyzed (r_outcome r') mod every = 0 then do_commit r' else r')"

text \<open>
  The two checks at the top of each candidate (lines 279 to 286) and of each attempt
  (lines 303 to 310): the run stops with its outcome, or goes on.
\<close>

definition checkpoint :: "config \<Rightarrow> run \<Rightarrow> (result \<times> run) + run" where
  "checkpoint P r =
     (let (abort, r1) = should_abort r in
      if abort then Inl (stop_ctrl_c P r1)
      else
        let (late, r2) = deadline_reached P r1 in
        if late then Inl (stop_timeout P r2) else Inr r2)"

text \<open>
  One attempt, lines 312 to 372, with the response of the service. On the left, the
  retry loop is left: with \<open>None\<close> by \<^verbatim>\<open>break\<close>, with the result of the run when the run
  ends here. On the right, the attempt is to be repeated.
\<close>

definition attempt_once ::
  "config \<Rightarrow> pystr \<Rightarrow> nat \<Rightarrow> response \<Rightarrow> run \<Rightarrow> (result option \<times> run) + run"
where
  "attempt_once P cid attempt resp r =
     (case resp of
        Interrupt \<Rightarrow> (let (res, r') = stop_ctrl_c P r in Inl (Some res, r'))
      | Parsed ms \<Rightarrow>
          Inl (None,
            count_analyzed 10
              (do_store_result P cid (merge_mentions (cfg_unicode P) ms) (inc_calls r)))
      | Raises e \<Rightarrow>
          (case handle_exception P cid e r of
             (Reraise, r') \<Rightarrow> Inl (Some (Raised e), r')
           | (Return, r') \<Rightarrow> Inl (Some (Returned (r_outcome r')), r')
           | (Break, r') \<Rightarrow> Inl (None, r')
           | (Retry, r') \<Rightarrow>
               (case backoff_seconds attempt of
                  None \<Rightarrow> Inl (Some RaisedOverflow, r')
                | Some wait_s \<Rightarrow> Inr r')))"

text \<open>
  The loop of lines 302 to 372 for one candidate. It gives \<open>None\<close> when the loop is left
  by \<^verbatim>\<open>break\<close> and the result of the run when the run ends in it, the responses that are
  left, and the state. When the responses are used up, the run has not ended.
\<close>

fun attempt_loop ::
  "config \<Rightarrow> pystr \<Rightarrow> nat \<Rightarrow> response list \<Rightarrow> run \<Rightarrow> result option \<times> response list \<times> run"
where
  "attempt_loop P cid attempt [] r =
     (case checkpoint P r of
        Inl (res, r') \<Rightarrow> (Some res, [], r')
      | Inr r2 \<Rightarrow> (Some Unfinished, [], r2))"
| "attempt_loop P cid attempt (resp # rs) r =
     (case checkpoint P r of
        Inl (res, r') \<Rightarrow> (Some res, resp # rs, r')
      | Inr r2 \<Rightarrow>
          (case attempt_once P cid attempt resp r2 of
             Inl (ro, r') \<Rightarrow> (ro, rs, r')
           | Inr r' \<Rightarrow> attempt_loop P cid (attempt + 1) rs r'))"

text \<open>
  The loop of lines 278 to 378 over the candidates, with the return of line 378 when they
  are used up.
\<close>

fun analyze_loop ::
  "config \<Rightarrow> (pystr \<times> pystr) list \<Rightarrow> response list \<Rightarrow> run \<Rightarrow> result \<times> response list \<times> run"
where
  "analyze_loop P [] rs r =
     (let r' = do_cleanup P (do_commit r) in (Returned (r_outcome r'), rs, r'))"
| "analyze_loop P (cand # cands) rs r =
     (case checkpoint P r of
        Inl (res, r') \<Rightarrow> (res, rs, r')
      | Inr r2 \<Rightarrow>
          (let text = strip (cfg_unicode P) (snd cand) in
           if text = [] then analyze_loop P cands rs r2
           else if enable_keyword_shortcut P \<and> \<not> has_finance_hint P text then
             analyze_loop P cands rs (count_analyzed 50 (do_mark_ok P (fst cand) r2))
           else
             case attempt_loop P (fst cand) 0 rs r2 of
               (None, rs', r') \<Rightarrow> analyze_loop P cands rs' r'
             | (Some res, rs', r') \<Rightarrow> (res, rs', r')))"

text \<open>
  \<^verbatim>\<open>analyze\<close>, on a connection \<open>c\<close>, with the observations \<open>w\<close> of the world and the
  responses \<open>rs\<close> of the extraction service.
\<close>

definition analyze :: "config \<Rightarrow> conn \<Rightarrow> world \<Rightarrow> response list \<Rightarrow> result \<times> response list \<times> run" where
  "analyze P c w rs =
     (let r = \<lparr>r_conn = c,
               r_outcome = \<lparr>analyzed = 0, errors = 0, analyzed_model_calls = 0,
                            stopped_reason = None\<rparr>,
               r_world = w\<rparr>
      in if \<not> have_api_key P then (RaisedMissingKey, rs, r)
         else analyze_loop P
                (fetch_candidates (tables c) (analysis_tag P) (limit P) (retry_errors P)
                   (subreddits P) False)
                rs r)"

section \<open>Example data\<close>


definition conn_of :: "db \<Rightarrow> conn" where
  "conn_of d = \<lparr>tables = d, durable = d, history = []\<rparr>"

definition ex_tag :: pystr where
  "ex_tag = str_of ''default''"

definition ex_model :: pystr where
  "ex_model = str_of ''gpt-5-nano''"


text \<open>
  Three records: \<open>c1\<close> was never attempted under the tag, \<open>c2\<close>, the oldest, has the
  status "error", and \<open>c3\<close>, the newest, has the status "ok".
\<close>

definition ex_c1 :: comment_row where
  "ex_c1 = \<lparr>comment_id = str_of ''c1'', subreddit = str_of ''stocks'', created_utc = Some 200,
            body = str_of ''buy TSLA''\<rparr>"

definition ex_c2 :: comment_row where
  "ex_c2 = \<lparr>comment_id = str_of ''c2'', subreddit = str_of ''stocks'', created_utc = Some 100,
            body = str_of ''sell AAPL''\<rparr>"

definition ex_c3 :: comment_row where
  "ex_c3 = \<lparr>comment_id = str_of ''c3'', subreddit = str_of ''stocks'', created_utc = Some 300,
            body = str_of ''hold''\<rparr>"

definition ex_db :: db where
  "ex_db = \<lparr>comments = [ex_c1, ex_c2, ex_c3],
     comment_analysis =
       [\<lparr>a_tag = ex_tag, a_comment_id = str_of ''c2'', a_model = ex_model, a_analyzed_at = 150,
         a_status = Error, a_error = Some (str_of ''ValueError: boom'')\<rparr>,
        \<lparr>a_tag = ex_tag, a_comment_id = str_of ''c3'', a_model = ex_model, a_analyzed_at = 350,
         a_status = Ok, a_error = None\<rparr>],
     mentions = []\<rparr>"


text \<open>
  Mentions of two symbols under the tag and of one under another tag, and an oracle that
  rejects \<open>XYZ\<close>.
\<close>

definition ex_mention :: "pystr \<Rightarrow> pystr \<Rightarrow> pystr \<Rightarrow> mention_row" where
  "ex_mention tag cid t =
     \<lparr>m_tag = tag, m_comment_id = cid, m_ticker = t, m_sentiment = Bullish,
      m_model = ex_model, m_analyzed_at = 150\<rparr>"

definition ex_mentions_db :: db where
  "ex_mentions_db = ex_db\<lparr>mentions :=
     [ex_mention ex_tag (str_of ''c3'') (str_of ''TSLA''),
      ex_mention ex_tag (str_of ''c3'') (str_of ''XYZ''),
      ex_mention (str_of ''other'') (str_of ''c3'') (str_of ''XYZ'')]\<rparr>"

definition ex_oracle :: "pystr \<Rightarrow> bool" where
  "ex_oracle t \<longleftrightarrow> t \<noteq> str_of ''XYZ''"


section \<open>The pacer (pipeline.py)\<close>






section \<open>Notions for the properties of the scheduler\<close>

text \<open>
  The classification of failures in the words of the specification: four classes,
  tested in the order fatal authentication, exhausted quota, transient, and the first
  match wins; whatever matches none is a permanent error of the item.
\<close>

datatype failure_class = FatalAuth | QuotaExhausted | Transient | PermanentItemError

definition classify_spec :: "unicode \<Rightarrow> exc \<Rightarrow> failure_class" where
  "classify_spec U e =
     (case find (\<lambda>mc. fst mc e)
        [(is_fatal_auth, FatalAuth),
         (\<lambda>e. isinstance e [RateLimitError] \<and> is_quota_exhausted U e, QuotaExhausted),
         (is_retryable, Transient)] of
        Some mc \<Rightarrow> snd mc
      | None \<Rightarrow> PermanentItemError)"

text \<open>
  The "ok" status rows written since the last commit, counted in a history (the latest
  statement first), and the largest number that this count has reached in the history.
\<close>

fun open_oks :: "stmt list \<Rightarrow> nat" where
  "open_oks [] = 0"
| "open_oks (Commit # h) = 0"
| "open_oks (InsertAnalysis row # h) = (if a_status row = Ok then Suc (open_oks h) else open_oks h)"
| "open_oks (InsertMention row # h) = open_oks h"
| "open_oks (DeleteMentions tag chunk # h) = open_oks h"

fun max_open_oks :: "stmt list \<Rightarrow> nat" where
  "max_open_oks [] = 0"
| "max_open_oks (st # h) = max (open_oks (st # h)) (max_open_oks h)"

text \<open>The same for a state of the run, with the number of analyzed items.\<close>

definition pending :: "run \<Rightarrow> nat" where
  "pending r = open_oks (history (r_conn r))"

definition peak :: "run \<Rightarrow> nat" where
  "peak r = max_open_oks (history (r_conn r))"

definition all_committed :: "run \<Rightarrow> bool" where
  "all_committed r \<longleftrightarrow> durable (r_conn r) = tables (r_conn r)"

text \<open>
  The invariant of the loops: the open "ok" rows are no more than the analyzed items
  counted modulo \<open>K\<close>, and their number has never passed \<open>K\<close>.
\<close>

definition commit_inv :: "nat \<Rightarrow> run \<Rightarrow> bool" where
  "commit_inv K r \<longleftrightarrow> pending r \<le> analyzed (r_outcome r) mod K \<and> peak r \<le> K"

text \<open>How often the run commits: line 327, and line 296 when the shortcut is on.\<close>

definition commit_every :: "config \<Rightarrow> nat" where
  "commit_every P = (if enable_keyword_shortcut P then 50 else 10)"


text \<open>
  The results with which the run stops and hands back control with an outcome or with the
  exception of the extraction call: normal completion, deadline, cancellation and quota
  stop return, a fatal authentication failure is raised again.
\<close>

fun stops_committed :: "result \<Rightarrow> bool" where
  "stops_committed (Returned out) = True"
| "stops_committed (Raised e) = True"
| "stops_committed RaisedOverflow = False"
| "stops_committed RaisedMissingKey = False"
| "stops_committed Unfinished = False"

text \<open>What holds when a loop is left, with \<open>None\<close> for the next candidate or with a result.\<close>

definition loop_post :: "nat \<Rightarrow> result option \<Rightarrow> run \<Rightarrow> bool" where
  "loop_post K ro r =
     (case ro of
        None \<Rightarrow> commit_inv K r
      | Some res \<Rightarrow> peak r \<le> K \<and> (if stops_committed res then all_committed r else True))"


text \<open>
  A run as the command line starts it: default mode, no deadline, the switches off; and a
  world in which no key is pressed.
\<close>

definition ex_config :: config where
  "ex_config =
     \<lparr>cfg_unicode = ascii, analysis_tag = ex_tag, model = ex_model, limit = 5000,
      retry_errors = False, subreddits = None, timeout_seconds = None, have_api_key = True,
      enable_keyword_shortcut = False, enable_yfinance_validation = False,
      has_finance_hint = (\<lambda>text. sublist (str_of ''buy'') text),
      is_real_ticker_yf = (\<lambda>t. True)\<rparr>"

definition quiet_world :: world where
  "quiet_world = \<lparr>abort_polls = [], deadline_polls = [], clock = []\<rparr>"

text \<open>Eleven records without a finance keyword, none of them attempted.\<close>

definition ex_plain :: "nat \<Rightarrow> comment_row" where
  "ex_plain i =
     \<lparr>comment_id = [97 + i], subreddit = str_of ''stocks'',
      created_utc = Some (int i), body = str_of ''nice weather''\<rparr>"

definition ex_plain_db :: db where
  "ex_plain_db = \<lparr>comments = map ex_plain [0 ..< 11], comment_analysis = [], mentions = []\<rparr>"


text \<open>
  A rate-limit error whose message reports an exhausted quota, and a record whose body is
  white space only.
\<close>

definition ex_quota_error :: exc where
  "ex_quota_error =
     \<lparr>exc_classes = [RateLimitError], exc_type_name = str_of ''RateLimitError'',
      exc_str = str_of ''Error code: 429 - You exceeded your current quota (insufficient_quota)''\<rparr>"



definition ex_auth_error :: exc where
  "ex_auth_error =
     \<lparr>exc_classes = [AuthenticationError], exc_type_name = str_of ''AuthenticationError'',
      exc_str = str_of ''Error code: 401 - Incorrect API key provided''\<rparr>"


section \<open>Properties of symbol normalization\<close>

lemma list_all_replace_slash:
  "list_all keep_char s \<Longrightarrow> list_all ticker_char (replace_char c_slash c_dot s)"
  by (induction s) (auto simp: replace_char_def keep_char_def ticker_char_def)

lemma list_all_replace_hyphen:
  "list_all ticker_char s \<Longrightarrow> list_all ticker_char (replace_char c_hyphen c_dot s)"
  by (induction s) (auto simp: replace_char_def ticker_char_def)

lemma list_all_filter_keep: "list_all keep_char (filter keep_char s)"
  by (induction s) auto

lemma ticker_char_normalize: "list_all ticker_char (normalize_ticker U s)"
  by (simp add: normalize_ticker_def Let_def list_all_replace_slash list_all_replace_hyphen
      list_all_filter_keep)

lemma hyphen_not_in_replace: "c_hyphen \<notin> set (replace_char c_hyphen c_dot s)"
  by (induction s) (auto simp: replace_char_def c_hyphen_def c_dot_def)

lemma share_class_match_has_hyphen: "share_class_match s \<Longrightarrow> c_hyphen \<in> set s"
proof -
  assume m: "share_class_match s"
  then obtain r where "dropWhile is_AZ s = c_hyphen # r"
    by (auto simp: share_class_match_def Let_def split: list.splits)
  then have "c_hyphen \<in> set (dropWhile is_AZ s)" by simp
  then show ?thesis by (meson set_dropWhileD)
qed

lemma no_share_class_after_replace:
  "\<not> share_class_match (replace_char c_hyphen c_dot s)"
  using share_class_match_has_hyphen hyphen_not_in_replace by blast

lemma strip_fixed:
  assumes "\<forall>c. ticker_char c \<longrightarrow> \<not> isspace U c" and "list_all ticker_char s"
  shows "strip U s = s"
proof (cases s rule: rev_cases)
  case Nil
  then show ?thesis by (simp add: strip_def)
next
  case (snoc ys y)
  with assms have y: "\<not> isspace U y" by simp
  show ?thesis
  proof (cases s)
    case Nil
    with snoc show ?thesis by simp
  next
    case (Cons x xs)
    with assms have "\<not> isspace U x" by simp
    with Cons have "dropWhile (isspace U) s = s" by simp
    with snoc y show ?thesis by (simp add: strip_def)
  qed
qed

lemma ticker_char_not_special:
  "ticker_char c \<Longrightarrow> c \<noteq> c_dollar \<and> c \<noteq> c_colon \<and> c \<noteq> c_slash \<and> keep_char c"
  by (auto simp: ticker_char_def keep_char_def is_AZ_def is_09_def c_dollar_def c_colon_def
      c_slash_def c_dot_def c_hyphen_def)

lemma strip_market_prefix_fixed:
  assumes "list_all ticker_char s"
  shows "strip_market_prefix s = s"
proof (cases "dropWhile is_AZ s")
  case Nil
  show ?thesis unfolding strip_market_prefix_def Nil by simp
next
  case (Cons c rest)
  then have "c \<in> set (dropWhile is_AZ s)" by simp
  then have "c \<in> set s" by (meson set_dropWhileD)
  with assms have "ticker_char c" by (simp add: list_all_iff)
  then have "c \<noteq> c_colon" by (simp add: ticker_char_not_special)
  then show ?thesis unfolding strip_market_prefix_def Cons by simp
qed

lemma filter_keep_fixed: "list_all ticker_char s \<Longrightarrow> filter keep_char s = s"
  by (induction s) (auto simp: ticker_char_not_special)

lemma replace_slash_fixed: "list_all ticker_char s \<Longrightarrow> replace_char c_slash c_dot s = s"
  by (induction s) (auto simp: replace_char_def ticker_char_not_special)

lemma drop_dollar_fixed:
  "list_all ticker_char s \<Longrightarrow>
   (case s of c # rest \<Rightarrow> if c = c_dollar then rest else s | [] \<Rightarrow> s) = s"
  by (cases s) (auto simp: ticker_char_not_special)

text \<open>
  On a string of ticker characters, normalization does nothing but the last step: the
  share-class rewrite.
\<close>

lemma normalize_on_ticker_chars:
  assumes U: "unicode_fixes_tickers U" and s: "list_all ticker_char s"
  shows "normalize_ticker U s =
         (if share_class_match s then replace_char c_hyphen c_dot s else s)"
proof -
  from U s have up: "str_upper U (strip U s) = s"
    by (simp add: unicode_fixes_tickers_def strip_fixed)
  show ?thesis
  proof (cases "s = []")
    case True
    with up show ?thesis by (simp add: normalize_ticker_def replace_char_def)
  next
    case False
    with up s show ?thesis
      by (simp add: normalize_ticker_def Let_def drop_dollar_fixed strip_market_prefix_fixed
          filter_keep_fixed replace_slash_fixed)
  qed
qed

lemma ascii_fixes_tickers: "unicode_fixes_tickers ascii"
proof -
  have up: "list_all ticker_char s \<Longrightarrow> map ascii_upper_char s = s" for s
    by (induction s)
      (auto simp: ticker_char_def ascii_upper_char_def is_AZ_def is_09_def c_dot_def
        c_hyphen_def)
  have sp: "ticker_char c \<Longrightarrow> \<not> ascii_isspace c" for c
    by (auto simp: ticker_char_def ascii_isspace_def is_AZ_def is_09_def c_dot_def
        c_hyphen_def)
  from up sp show ?thesis by (simp add: unicode_fixes_tickers_def ascii_def)
qed

text \<open>The examples of the specification, on ASCII input.\<close>

lemma normalize_ticker_examples:
  "normalize_ticker ascii (str_of ''$TSLA'') = str_of ''TSLA''"
  "normalize_ticker ascii (str_of ''NASDAQ:aapl'') = str_of ''AAPL''"
  "normalize_ticker ascii (str_of ''BRK-B'') = str_of ''BRK.B''"
  "normalize_ticker ascii (str_of ''BRK/B'') = str_of ''BRK.B''"
  "normalize_ticker ascii (str_of ''  '') = []"
  by (simp_all add: normalize_ticker_def strip_def ascii_def ascii_isspace_def
      ascii_upper_char_def str_of_def c_dollar_def strip_market_prefix_def is_AZ_def
      is_09_def c_colon_def keep_char_def c_dot_def c_hyphen_def c_slash_def
      replace_char_def share_class_match_def)

text \<open>
  C9. Symbol normalization is idempotent: for every input string, normalizing the
  normalized string gives the normalized string again. This holds for every Unicode
  database that leaves strings of capitals, digits, dots and hyphens alone when it
  upper-cases them and counts none of these characters as white space.
\<close>

theorem normalize_ticker_idempotent:
  assumes "unicode_fixes_tickers U"
  shows "normalize_ticker U (normalize_ticker U s) = normalize_ticker U s"
proof -
  let ?t = "normalize_ticker U s"
  have t: "list_all ticker_char ?t" by (rule ticker_char_normalize)
  have "\<not> share_class_match ?t"
  proof (cases "str_upper U (strip U s) = []")
    case True
    then have "?t = []" by (simp add: normalize_ticker_def)
    then show ?thesis by (simp add: share_class_match_def)
  next
    case False
    then show ?thesis
      by (simp add: normalize_ticker_def Let_def no_share_class_after_replace)
  qed
  with normalize_on_ticker_chars [OF assms t] show ?thesis by simp
qed

theorem normalize_ticker_idempotent_witness:
  "unicode_fixes_tickers ascii \<and>
   normalize_ticker ascii (str_of '' nyse:brk-b '') = str_of ''BRK.B'' \<and>
   normalize_ticker ascii (normalize_ticker ascii (str_of '' nyse:brk-b '')) =
     normalize_ticker ascii (str_of '' nyse:brk-b '')"
proof -
  have v: "normalize_ticker ascii (str_of '' nyse:brk-b '') = str_of ''BRK.B''"
    by (simp add: normalize_ticker_def strip_def ascii_def ascii_isspace_def
        ascii_upper_char_def str_of_def c_dollar_def strip_market_prefix_def is_AZ_def
        is_09_def c_colon_def keep_char_def c_dot_def c_hyphen_def c_slash_def
        replace_char_def share_class_match_def)
  from v ascii_fixes_tickers
    normalize_ticker_idempotent [OF ascii_fixes_tickers, of "str_of '' nyse:brk-b ''"]
  show ?thesis by simp
qed

text \<open>
  C10. For every input string and every Unicode database, the normalized symbol is made
  of capitals, digits, dots and hyphens only. So it holds no slash, dollar sign or colon,
  no lower-case letter, and no white space (every white-space character of Unicode is
  below the digits' and letters' range or above it, and is neither dot nor hyphen).
\<close>

theorem normalize_ticker_alphabet:
  "list_all ticker_char (normalize_ticker U s) \<and>
   c_slash \<notin> set (normalize_ticker U s) \<and>
   c_dollar \<notin> set (normalize_ticker U s) \<and>
   c_colon \<notin> set (normalize_ticker U s) \<and>
   list_all (\<lambda>c. \<not> (97 \<le> c \<and> c \<le> 122)) (normalize_ticker U s) \<and>
   list_all (\<lambda>c. \<not> ascii_isspace c \<and> 45 \<le> c \<and> c \<le> 90) (normalize_ticker U s)"
proof -
  let ?t = "normalize_ticker U s"
  have t: "list_all ticker_char ?t" by (rule ticker_char_normalize)
  have a: "c_slash \<notin> set ?t \<and> c_dollar \<notin> set ?t \<and> c_colon \<notin> set ?t"
    using t ticker_char_not_special by (auto simp: list_all_iff)
  have b: "list_all (\<lambda>c. \<not> (97 \<le> c \<and> c \<le> 122)) ?t"
    using t
    by (auto simp: list_all_iff ticker_char_def is_AZ_def is_09_def c_dot_def c_hyphen_def)
  have c: "list_all (\<lambda>c. \<not> ascii_isspace c \<and> 45 \<le> c \<and> c \<le> 90) ?t"
    using t
    by (auto simp: list_all_iff ticker_char_def is_AZ_def is_09_def c_dot_def c_hyphen_def
        ascii_isspace_def)
  from t a b c show ?thesis by simp
qed

theorem normalize_ticker_alphabet_witness:
  "normalize_ticker ascii (str_of ''$brk/b: x'') = str_of ''BRK.BX'' \<and>
   list_all ticker_char (normalize_ticker ascii (str_of ''$brk/b: x'')) \<and>
   c_slash \<notin> set (normalize_ticker ascii (str_of ''$brk/b: x''))"
proof -
  have v: "normalize_ticker ascii (str_of ''$brk/b: x'') = str_of ''BRK.BX''"
    by (simp add: normalize_ticker_def strip_def ascii_def ascii_isspace_def
        ascii_upper_char_def str_of_def c_dollar_def strip_market_prefix_def is_AZ_def
        is_09_def c_colon_def keep_char_def c_dot_def c_hyphen_def c_slash_def
        replace_char_def share_class_match_def)
  from v normalize_ticker_alphabet [of ascii "str_of ''$brk/b: x''"]
  show ?thesis by simp
qed

section \<open>Properties of the sentiment merge\<close>

lemma map_of_dict_set: "map_of (dict_set k v ps) = (map_of ps)(k \<mapsto> v)"
  by (induction ps) (auto simp: fun_eq_iff)

lemma fst_dict_set: "fst ` set (dict_set k v ps) = insert k (fst ` set ps)"
  by (induction ps) auto

lemma distinct_dict_set: "distinct (map fst ps) \<Longrightarrow> distinct (map fst (dict_set k v ps))"
  by (induction ps) (auto simp: fst_dict_set)

lemma map_of_merge_step:
  "map_of (merge_step U out m) t =
     (if normalize_ticker U (fst m) = t \<and> t \<noteq> [] then absorb (map_of out t) (snd m)
      else map_of out t)"
  by (auto simp: merge_step_def Let_def map_of_dict_set absorb_def)

lemma absorb_Some: "absorb (Some v) s = Some (if s = v then v else Neutral)"
  by (auto simp: absorb_def)

lemma absorb_None: "absorb None s = Some s"
  by (simp add: absorb_def)

lemma foldl_absorb_Some:
  "foldl absorb (Some v) ss = Some (if list_all (\<lambda>x. x = v) ss then v else Neutral)"
  by (induction ss arbitrary: v) (simp_all add: absorb_Some)

lemma foldl_absorb_None: "foldl absorb None ss = merged_sentiment_spec ss"
  by (cases ss) (simp_all add: absorb_None foldl_absorb_Some)

lemma map_of_foldl_merge:
  "t \<noteq> [] \<Longrightarrow>
   map_of (foldl (merge_step U) out ms) t = foldl absorb (map_of out t) (occurrences U ms t)"
  by (induction ms arbitrary: out) (simp_all add: occurrences_def map_of_merge_step)

lemma map_of_foldl_merge_empty:
  "map_of (foldl (merge_step U) out ms) [] = map_of out []"
  by (induction ms arbitrary: out) (simp_all add: map_of_merge_step)

lemma distinct_foldl_merge:
  "distinct (map fst out) \<Longrightarrow> distinct (map fst (foldl (merge_step U) out ms))"
  by (induction ms arbitrary: out) (simp_all add: merge_step_def Let_def distinct_dict_set)

text \<open>
  C7. For every list of extracted (symbol, sentiment) pairs, with any repetitions, the
  merge gives a list of pairs with distinct symbols, none of them empty, in which a
  symbol has a sentiment exactly if some pair's symbol normalizes to it: the common
  sentiment if all its occurrences agree, neutral if two of them differ.
\<close>

theorem merge_mentions_correct:
  "distinct (map fst (merge_mentions U ms)) \<and>
   [] \<notin> fst ` set (merge_mentions U ms) \<and>
   map_of (merge_mentions U ms) t =
     (if t = [] then None else merged_sentiment_spec (occurrences U ms t))"
proof -
  have d: "distinct (map fst (merge_mentions U ms))"
    by (simp add: merge_mentions_def distinct_foldl_merge)
  have "map_of (merge_mentions U ms) [] = None"
    by (simp add: merge_mentions_def map_of_foldl_merge_empty)
  then have e: "[] \<notin> fst ` set (merge_mentions U ms)"
    by (simp add: map_of_eq_None_iff)
  have m: "map_of (merge_mentions U ms) t =
     (if t = [] then None else merged_sentiment_spec (occurrences U ms t))"
    by (simp add: merge_mentions_def map_of_foldl_merge map_of_foldl_merge_empty
        foldl_absorb_None)
  from d e m show ?thesis by simp
qed


theorem merge_mentions_correct_witness:
  "merge_mentions ascii
     [(str_of ''TSLA'', Bullish), (str_of ''$aapl'', Bearish), (str_of '' '', Bullish),
      (str_of ''tsla'', Bearish), (str_of ''AAPL'', Bearish), (str_of ''TSLA'', Bearish)] =
     [(str_of ''TSLA'', Neutral), (str_of ''AAPL'', Bearish)] \<and>
   map_of (merge_mentions ascii
     [(str_of ''TSLA'', Bullish), (str_of ''$aapl'', Bearish), (str_of '' '', Bullish),
      (str_of ''tsla'', Bearish), (str_of ''AAPL'', Bearish), (str_of ''TSLA'', Bearish)])
     (str_of ''TSLA'') = Some Neutral"
proof -
  let ?ms = "[(str_of ''TSLA'', Bullish), (str_of ''$aapl'', Bearish), (str_of '' '', Bullish),
      (str_of ''tsla'', Bearish), (str_of ''AAPL'', Bearish), (str_of ''TSLA'', Bearish)]"
  have n: "normalize_ticker ascii (str_of ''TSLA'') = str_of ''TSLA''"
    "normalize_ticker ascii (str_of ''tsla'') = str_of ''TSLA''"
    "normalize_ticker ascii (str_of ''$aapl'') = str_of ''AAPL''"
    "normalize_ticker ascii (str_of ''AAPL'') = str_of ''AAPL''"
    "normalize_ticker ascii (str_of '' '') = []"
    by (simp_all add: normalize_ticker_def strip_def ascii_def ascii_isspace_def
        ascii_upper_char_def str_of_def c_dollar_def strip_market_prefix_def is_AZ_def
        is_09_def c_colon_def keep_char_def c_dot_def c_hyphen_def c_slash_def
        replace_char_def share_class_match_def)
  have v: "merge_mentions ascii ?ms = [(str_of ''TSLA'', Neutral), (str_of ''AAPL'', Bearish)]"
    by (simp add: merge_mentions_def merge_step_def n) (simp add: str_of_def)
  from v merge_mentions_correct [of ascii ?ms "str_of ''TSLA''"] show ?thesis
    by (simp add: str_of_def)
qed

section \<open>Properties of the writers\<close>

lemma tables_execute: "tables (execute st c) = exec_stmt st (tables c)"
  by (simp add: execute_def)

lemma filter_key_insert_or_replace:
  "filter (\<lambda>x. key x = key r) (insert_or_replace key r rows) = [r]"
proof -
  have "filter (\<lambda>x. key x = key r) (filter (\<lambda>x. key x \<noteq> key r) rows) = []"
    by (induction rows) auto
  then show ?thesis by (simp add: insert_or_replace_def)
qed



lemma distinct_insert_or_replace:
  "distinct (map key rows) \<Longrightarrow> distinct (map key (insert_or_replace key r rows))"
  by (auto simp: insert_or_replace_def distinct_map_filter)





lemma save_mentions_foldl:
  "save_mentions now tag cid mdl sentiment_rows c =
     foldl (\<lambda>c' r. execute (InsertMention r) c') c (mention_rows now tag cid mdl sentiment_rows)"
  by (simp add: save_mentions_def mention_rows_def foldl_map)




lemma tables_mark_analyzed_error:
  "tables (mark_analyzed_error now tag cid mdl err c) =
     (tables c)\<lparr>comment_analysis := insert_or_replace analysis_key
        \<lparr>a_tag = tag, a_comment_id = cid, a_model = mdl, a_analyzed_at = now,
         a_status = Error, a_error = Some (take 2000 err)\<rparr> (comment_analysis (tables c))\<rparr>"
  by (simp add: mark_analyzed_error_def tables_execute)








section \<open>Properties of candidate selection\<close>



















lemmas ex_fetch_defs = fetch_candidates_def fetch_rows_def sql_limit_def order_by_created_desc_def
  eligible_rows_def left_join_def status_selected_def subreddit_selected_def ex_db_def
  ex_c1_def ex_c2_def ex_c3_def ex_tag_def str_of_def status_of_def



section \<open>Properties of the deletion\<close>

lemma set_fromkeys: "set (fromkeys xs) = set xs"
  by (induction xs) auto

lemma set_ticker_list: "set (ticker_list tickers) = {t \<in> set tickers. t \<noteq> []}"
  by (auto simp: ticker_list_def set_fromkeys)

lemma concat_chunks_upto:
  "concat (map (\<lambda>k. take n (drop (k * n) xs)) [0 ..< m]) = take (m * n) xs"
proof (induction m)
  case 0
  show ?case by simp
next
  case (Suc m)
  have "take (m * n) xs @ take n (drop (m * n) xs) = take (m * n + n) xs"
    by (simp add: take_add)
  with Suc show ?case by (simp add: add.commute)
qed

lemma concat_chunks: "concat (chunks xs) = xs"
proof -
  have "length xs \<le> (length xs + chunk_size - 1) div chunk_size * chunk_size"
    by (simp add: chunk_size_def)
  then show ?thesis by (simp add: chunks_def concat_chunks_upto)
qed

lemma length_chunks: "list_all (\<lambda>ch. length ch \<le> 900) (chunks xs)"
  by (simp add: chunks_def list_all_iff chunk_size_def)

lemma set_chunks: "\<Union> (set ` set (chunks xs)) = set xs"
proof -
  have "set (concat (chunks xs)) = set xs" by (simp add: concat_chunks)
  then show ?thesis by simp
qed

text \<open>The loop over the chunks: tables, history and the count.\<close>

lemma foldl_delete_chunk_mentions:
  "mentions (tables (fst (foldl (delete_chunk tag) cd chs))) =
     filter (\<lambda>m. \<not> (m_tag m = tag \<and> m_ticker m \<in> \<Union> (set ` set chs)))
       (mentions (tables (fst cd)))"
proof (induction chs arbitrary: cd)
  case Nil
  show ?case by simp
next
  case (Cons ch chs)
  have "mentions (tables (fst (delete_chunk tag cd ch))) =
        filter (\<lambda>m. \<not> (m_tag m = tag \<and> m_ticker m \<in> set ch)) (mentions (tables (fst cd)))"
    by (simp add: delete_chunk_def Let_def execute_def)
  with Cons.IH [of "delete_chunk tag cd ch"]
  have "mentions (tables (fst (foldl (delete_chunk tag) cd (ch # chs)))) =
        filter (\<lambda>m. \<not> (m_tag m = tag \<and> m_ticker m \<in> \<Union> (set ` set chs)))
          (filter (\<lambda>m. \<not> (m_tag m = tag \<and> m_ticker m \<in> set ch)) (mentions (tables (fst cd))))"
    by simp
  also have "\<dots> = filter (\<lambda>m. \<not> (m_tag m = tag \<and> m_ticker m \<in> \<Union> (set ` set (ch # chs))))
          (mentions (tables (fst cd)))"
    unfolding filter_filter by (rule filter_cong) auto
  finally show ?case .
qed

lemma foldl_delete_chunk_frame:
  "comment_analysis (tables (fst (foldl (delete_chunk tag) cd chs))) =
     comment_analysis (tables (fst cd)) \<and>
   comments (tables (fst (foldl (delete_chunk tag) cd chs))) = comments (tables (fst cd))"
  by (induction chs arbitrary: cd) (simp_all add: delete_chunk_def Let_def execute_def)

lemma foldl_delete_chunk_history:
  "history (fst (foldl (delete_chunk tag) cd chs)) =
     rev (map (DeleteMentions tag) chs) @ history (fst cd)"
proof (induction chs arbitrary: cd)
  case Nil
  show ?case by simp
next
  case (Cons ch chs)
  have "history (fst (delete_chunk tag cd ch)) = DeleteMentions tag ch # history (fst cd)"
    by (simp add: delete_chunk_def Let_def execute_def)
  with Cons.IH [of "delete_chunk tag cd ch"] show ?case by simp
qed

lemma foldl_delete_chunk_durable:
  "durable (fst (foldl (delete_chunk tag) cd chs)) = durable (fst cd)"
  by (induction chs arbitrary: cd) (simp_all add: delete_chunk_def Let_def execute_def)

lemma foldl_delete_chunk_count:
  "snd (foldl (delete_chunk tag) cd chs) + length (mentions (tables (fst (foldl (delete_chunk tag) cd chs)))) =
     snd cd + length (mentions (tables (fst cd)))"
proof (induction chs arbitrary: cd)
  case Nil
  show ?case by simp
next
  case (Cons ch chs)
  have "length (mentions (tables (fst (delete_chunk tag cd ch)))) \<le> length (mentions (tables (fst cd)))"
    by (simp add: delete_chunk_def Let_def execute_def)
  then have "snd (delete_chunk tag cd ch) + length (mentions (tables (fst (delete_chunk tag cd ch)))) =
        snd cd + length (mentions (tables (fst cd)))"
    by (simp add: delete_chunk_def Let_def)
  with Cons.IH [of "delete_chunk tag cd ch"] show ?case by simp
qed

lemma delete_mentions_for_tickers_eq:
  "delete_mentions_for_tickers c tag tickers =
     foldl (delete_chunk tag) (c, 0) (chunks (ticker_list tickers))"
  by (simp add: delete_mentions_for_tickers_def chunks_def chunk_size_def)

lemma mentions_delete_mentions_for_tickers:
  "mentions (tables (fst (delete_mentions_for_tickers c tag tickers))) =
     filter (\<lambda>m. \<not> (m_tag m = tag \<and> m_ticker m \<noteq> [] \<and> m_ticker m \<in> set tickers))
       (mentions (tables c))"
proof -
  have "\<Union> (set ` set (chunks (ticker_list tickers))) = {t \<in> set tickers. t \<noteq> []}"
    by (simp add: set_chunks set_ticker_list)
  then have "mentions (tables (fst (delete_mentions_for_tickers c tag tickers))) =
     filter (\<lambda>m. \<not> (m_tag m = tag \<and> m_ticker m \<in> {t \<in> set tickers. t \<noteq> []}))
       (mentions (tables c))"
    by (simp add: delete_mentions_for_tickers_eq foldl_delete_chunk_mentions)
  also have "\<dots> = filter (\<lambda>m. \<not> (m_tag m = tag \<and> m_ticker m \<noteq> [] \<and> m_ticker m \<in> set tickers))
       (mentions (tables c))"
    by (rule filter_cong) auto
  finally show ?thesis .
qed


lemma set_find_invalid_loop:
  "set (find_invalid_loop U is_real ts seen invalid) =
     set invalid \<union>
     {tt. tt \<noteq> [] \<and> tt \<notin> set seen \<and> \<not> is_real tt \<and> tt \<in> normalize_ticker U ` set ts}"
proof (induction ts arbitrary: seen invalid)
  case Nil
  show ?case by simp
next
  case (Cons t ts)
  show ?case
  proof (cases "normalize_ticker U t = [] \<or> normalize_ticker U t \<in> set seen")
    case True
    then show ?thesis by (auto simp: Cons.IH)
  next
    case False
    then show ?thesis by (auto simp: Cons.IH Let_def)
  qed
qed

lemma set_find_invalid_tickers:
  "set (find_invalid_tickers U enabled is_real ts) =
     {tt. enabled \<and> tt \<noteq> [] \<and> \<not> is_real tt \<and> tt \<in> normalize_ticker U ` set ts}"
  by (simp add: find_invalid_tickers_def set_find_invalid_loop)

lemma find_invalid_tickers_rejected:
  "list_all (\<lambda>t. t \<noteq> [] \<and> \<not> is_real t) (find_invalid_tickers U enabled is_real ts)"
  by (simp add: list_all_iff set_find_invalid_tickers)

lemma tables_commit: "tables (commit c) = tables c"
  by (simp add: commit_def)

lemma mentions_cleanup_invalid_tickers:
  "mentions (tables (fst (cleanup_invalid_tickers U enabled is_real c tag))) =
     filter (\<lambda>m. \<not> (m_tag m = tag \<and>
         m_ticker m \<in> set (find_invalid_tickers U enabled is_real
                             (fetch_distinct_mentioned_tickers (tables c) tag))))
       (mentions (tables c))"
proof -
  let ?rej = "find_invalid_tickers U enabled is_real (fetch_distinct_mentioned_tickers (tables c) tag)"
  have ne: "[] \<notin> set ?rej" by (simp add: set_find_invalid_tickers)
  show ?thesis
  proof (cases "enabled \<and> fetch_distinct_mentioned_tickers (tables c) tag \<noteq> [] \<and> ?rej \<noteq> []")
    case True
    then have "mentions (tables (fst (cleanup_invalid_tickers U enabled is_real c tag))) =
        filter (\<lambda>m. \<not> (m_tag m = tag \<and> m_ticker m \<noteq> [] \<and> m_ticker m \<in> set (sort ?rej)))
          (mentions (tables c))"
      by (simp add: cleanup_invalid_tickers_def Let_def tables_commit
          mentions_delete_mentions_for_tickers)
    also have "\<dots> = filter (\<lambda>m. \<not> (m_tag m = tag \<and> m_ticker m \<in> set ?rej)) (mentions (tables c))"
      using ne by (intro filter_cong) auto
    finally show ?thesis .
  next
    case False
    then have r: "?rej = []"
      by (auto simp: find_invalid_tickers_def)
    from False have "fst (cleanup_invalid_tickers U enabled is_real c tag) = c"
      by (auto simp: cleanup_invalid_tickers_def Let_def)
    with r show ?thesis by simp
  qed
qed

lemma frame_delete_mentions_for_tickers:
  "comment_analysis (tables (fst (delete_mentions_for_tickers c tag tickers))) =
     comment_analysis (tables c) \<and>
   comments (tables (fst (delete_mentions_for_tickers c tag tickers))) = comments (tables c)"
  by (simp add: delete_mentions_for_tickers_eq foldl_delete_chunk_frame)

lemma frame_cleanup_invalid_tickers:
  "comment_analysis (tables (fst (cleanup_invalid_tickers U enabled is_real c tag))) =
     comment_analysis (tables c) \<and>
   comments (tables (fst (cleanup_invalid_tickers U enabled is_real c tag))) = comments (tables c)"
  by (simp add: cleanup_invalid_tickers_def Let_def tables_commit
      frame_delete_mentions_for_tickers)

lemma history_delete_mentions_for_tickers:
  "history (fst (delete_mentions_for_tickers c tag tickers)) =
     rev (map (DeleteMentions tag) (chunks (ticker_list tickers))) @ history c"
  by (simp add: delete_mentions_for_tickers_eq foldl_delete_chunk_history)

lemma history_cleanup_invalid_tickers:
  "history (fst (cleanup_invalid_tickers U enabled is_real c tag)) = history c \<or>
   history (fst (cleanup_invalid_tickers U enabled is_real c tag)) =
     Commit # rev (map (DeleteMentions tag)
       (chunks (ticker_list (sort (find_invalid_tickers U enabled is_real
          (fetch_distinct_mentioned_tickers (tables c) tag)))))) @ history c"
  by (simp add: cleanup_invalid_tickers_def Let_def commit_def
      history_delete_mentions_for_tickers)

lemma count_delete_mentions_for_tickers:
  "snd (delete_mentions_for_tickers c tag tickers) =
     length (mentions (tables c)) -
     length (mentions (tables (fst (delete_mentions_for_tickers c tag tickers))))"
  using foldl_delete_chunk_count [of tag "(c, 0)" "chunks (ticker_list tickers)"]
  by (simp add: delete_mentions_for_tickers_eq)

text \<open>
  C8. \<^verbatim>\<open>delete_mentions_for_tickers\<close> leaves exactly the mentions that are not both of the
  given tag and of a non-empty symbol in the given list, in their order; it changes neither
  the status rows nor the comments; the statements it sends are one \<^verbatim>\<open>DELETE\<close> for each
  chunk, and no chunk has more than 900 symbols; it returns the number of rows deleted.
  The validator as a whole leaves exactly the mentions that are not both of the tag and
  of a symbol in the rejected set, every symbol of which the oracle rejects; it changes
  neither the status rows nor the comments, and it sends nothing or these \<^verbatim>\<open>DELETE\<close>
  statements and a commit. So no row is created, and the rows of other symbols and of
  other tags stay as they are.
\<close>

theorem validator_deletes_only_rejected:
  "mentions (tables (fst (delete_mentions_for_tickers c tag tickers))) =
     filter (\<lambda>m. \<not> (m_tag m = tag \<and> m_ticker m \<noteq> [] \<and> m_ticker m \<in> set tickers))
       (mentions (tables c)) \<and>
   comment_analysis (tables (fst (delete_mentions_for_tickers c tag tickers))) =
     comment_analysis (tables c) \<and>
   comments (tables (fst (delete_mentions_for_tickers c tag tickers))) = comments (tables c) \<and>
   history (fst (delete_mentions_for_tickers c tag tickers)) =
     rev (map (DeleteMentions tag) (chunks (ticker_list tickers))) @ history c \<and>
   list_all (\<lambda>ch. length ch \<le> 900) (chunks (ticker_list tickers)) \<and>
   snd (delete_mentions_for_tickers c tag tickers) =
     length (mentions (tables c)) -
     length (mentions (tables (fst (delete_mentions_for_tickers c tag tickers)))) \<and>
   mentions (tables (fst (cleanup_invalid_tickers U enabled is_real c tag))) =
     filter (\<lambda>m. \<not> (m_tag m = tag \<and>
         m_ticker m \<in> set (find_invalid_tickers U enabled is_real
                             (fetch_distinct_mentioned_tickers (tables c) tag))))
       (mentions (tables c)) \<and>
   list_all (\<lambda>t. t \<noteq> [] \<and> \<not> is_real t)
     (find_invalid_tickers U enabled is_real (fetch_distinct_mentioned_tickers (tables c) tag)) \<and>
   comment_analysis (tables (fst (cleanup_invalid_tickers U enabled is_real c tag))) =
     comment_analysis (tables c) \<and>
   comments (tables (fst (cleanup_invalid_tickers U enabled is_real c tag))) =
     comments (tables c) \<and>
   (history (fst (cleanup_invalid_tickers U enabled is_real c tag)) = history c \<or>
    history (fst (cleanup_invalid_tickers U enabled is_real c tag)) =
      Commit # rev (map (DeleteMentions tag)
        (chunks (ticker_list (sort (find_invalid_tickers U enabled is_real
           (fetch_distinct_mentioned_tickers (tables c) tag)))))) @ history c)"
  using mentions_delete_mentions_for_tickers [of c tag tickers]
    frame_delete_mentions_for_tickers [of c tag tickers]
    history_delete_mentions_for_tickers [of c tag tickers]
    length_chunks [of "ticker_list tickers"]
    count_delete_mentions_for_tickers [of c tag tickers]
    mentions_cleanup_invalid_tickers [of U enabled is_real c tag]
    find_invalid_tickers_rejected [of is_real U enabled "fetch_distinct_mentioned_tickers (tables c) tag"]
    frame_cleanup_invalid_tickers [of U enabled is_real c tag]
    history_cleanup_invalid_tickers [of U enabled is_real c tag]
  by blast


theorem validator_deletes_only_rejected_witness:
  "mentions (tables (fst (cleanup_invalid_tickers ascii True ex_oracle
      (conn_of ex_mentions_db) ex_tag))) =
     [ex_mention ex_tag (str_of ''c3'') (str_of ''TSLA''),
      ex_mention (str_of ''other'') (str_of ''c3'') (str_of ''XYZ'')] \<and>
   comment_analysis (tables (fst (cleanup_invalid_tickers ascii True ex_oracle
      (conn_of ex_mentions_db) ex_tag))) = comment_analysis ex_db \<and>
   find_invalid_tickers ascii True ex_oracle
     (fetch_distinct_mentioned_tickers ex_mentions_db ex_tag) = [str_of ''XYZ'']"
proof -
  have n: "normalize_ticker ascii (str_of ''TSLA'') = str_of ''TSLA''"
    "normalize_ticker ascii (str_of ''XYZ'') = str_of ''XYZ''"
    by (simp_all add: normalize_ticker_def strip_def ascii_def ascii_isspace_def
        ascii_upper_char_def str_of_def c_dollar_def strip_market_prefix_def is_AZ_def
        is_09_def c_colon_def keep_char_def c_dot_def c_hyphen_def c_slash_def
        replace_char_def share_class_match_def)
  have t: "fetch_distinct_mentioned_tickers ex_mentions_db ex_tag =
      [str_of ''TSLA'', str_of ''XYZ'']"
    by (simp add: fetch_distinct_mentioned_tickers_def ex_mentions_db_def ex_mention_def
        ex_tag_def str_of_def)
  have f: "find_invalid_tickers ascii True ex_oracle [str_of ''TSLA'', str_of ''XYZ''] =
      [str_of ''XYZ'']"
    using n by (simp add: find_invalid_tickers_def ex_oracle_def str_of_def)
  have m: "filter (\<lambda>m. \<not> (m_tag m = ex_tag \<and> m_ticker m \<in> set [str_of ''XYZ'']))
       (mentions ex_mentions_db) =
     [ex_mention ex_tag (str_of ''c3'') (str_of ''TSLA''),
      ex_mention (str_of ''other'') (str_of ''c3'') (str_of ''XYZ'')]"
    by (simp add: ex_mentions_db_def ex_mention_def ex_tag_def str_of_def)
  have c: "tables (conn_of ex_mentions_db) = ex_mentions_db"
    "comment_analysis ex_mentions_db = comment_analysis ex_db"
    by (simp_all add: conn_of_def ex_mentions_db_def)
  have a: "mentions (tables (fst (cleanup_invalid_tickers ascii True ex_oracle
      (conn_of ex_mentions_db) ex_tag))) =
     filter (\<lambda>m. \<not> (m_tag m = ex_tag \<and>
         m_ticker m \<in> set (find_invalid_tickers ascii True ex_oracle
            (fetch_distinct_mentioned_tickers (tables (conn_of ex_mentions_db)) ex_tag))))
       (mentions (tables (conn_of ex_mentions_db)))"
    and b: "comment_analysis (tables (fst (cleanup_invalid_tickers ascii True ex_oracle
      (conn_of ex_mentions_db) ex_tag))) = comment_analysis (tables (conn_of ex_mentions_db))"
    using validator_deletes_only_rejected
      [of "conn_of ex_mentions_db" ex_tag "[]" ascii True ex_oracle]
    by blast+
  from a have a': "mentions (tables (fst (cleanup_invalid_tickers ascii True ex_oracle
      (conn_of ex_mentions_db) ex_tag))) =
     [ex_mention ex_tag (str_of ''c3'') (str_of ''TSLA''),
      ex_mention (str_of ''other'') (str_of ''c3'') (str_of ''XYZ'')]"
    unfolding c t f m .
  from b have b': "comment_analysis (tables (fst (cleanup_invalid_tickers ascii True ex_oracle
      (conn_of ex_mentions_db) ex_tag))) = comment_analysis ex_db"
    unfolding c .
  from a' b' t f show ?thesis by simp
qed

section \<open>Properties of the pacer\<close>








section \<open>Properties of the steps of the run\<close>

lemma open_oks_le_max: "open_oks h \<le> max_open_oks h"
  by (cases h) simp_all

lemma open_oks_mentions: "open_oks (map InsertMention rows @ h) = open_oks h"
  by (induction rows) simp_all

lemma max_open_oks_mentions: "max_open_oks (map InsertMention rows @ h) = max_open_oks h"
  using open_oks_le_max [of h] by (induction rows) (simp_all add: open_oks_mentions)

lemma open_oks_deletes: "open_oks (map (DeleteMentions tag) chs @ h) = open_oks h"
  by (induction chs) simp_all

lemma max_open_oks_deletes: "max_open_oks (map (DeleteMentions tag) chs @ h) = max_open_oks h"
  using open_oks_le_max [of h] by (induction chs) (simp_all add: open_oks_deletes)

lemma history_save_mentions:
  "history (save_mentions now tag cid mdl rows c) =
     map InsertMention (rev (mention_rows now tag cid mdl rows)) @ history c"
proof -
  have "history (foldl (\<lambda>c' r. execute (InsertMention r) c') c rs) =
        map InsertMention (rev rs) @ history c" for rs
    by (induction rs arbitrary: c) (simp_all add: execute_def)
  then show ?thesis by (simp add: save_mentions_foldl)
qed

lemma durable_save_mentions: "durable (save_mentions now tag cid mdl rows c) = durable c"
proof -
  have "durable (foldl (\<lambda>c' r. execute (InsertMention r) c') c rs) = durable c" for rs
    by (induction rs arbitrary: c) (simp_all add: execute_def)
  then show ?thesis by (simp add: save_mentions_foldl)
qed

lemma history_store_result:
  "history (store_result t1 t2 tag cid mdl rows c) =
     InsertAnalysis \<lparr>a_tag = tag, a_comment_id = cid, a_model = mdl, a_analyzed_at = t2,
       a_status = Ok, a_error = None\<rparr> #
     map InsertMention (rev (mention_rows t1 tag cid mdl rows)) @ history c"
  by (simp add: store_result_def mark_analyzed_ok_def execute_def history_save_mentions)

lemma time_time_conn: "r_conn (snd (time_time r)) = r_conn r"
  by (simp add: time_time_def split: list.splits)

lemma time_time_outcome: "r_outcome (snd (time_time r)) = r_outcome r"
  by (simp add: time_time_def split: list.splits)

lemma should_abort_frame:
  "r_conn (snd (should_abort r)) = r_conn r \<and> r_outcome (snd (should_abort r)) = r_outcome r"
  by (simp add: should_abort_def split: list.splits)

lemma deadline_reached_frame:
  "r_conn (snd (deadline_reached P r)) = r_conn r \<and>
   r_outcome (snd (deadline_reached P r)) = r_outcome r"
  by (simp add: deadline_reached_def split: list.splits)

text \<open>Each step, seen through \<open>pending\<close>, \<open>peak\<close> and the outcome.\<close>

lemma do_store_result_effect:
  "pending (do_store_result P cid rows r) = Suc (pending r) \<and>
   peak (do_store_result P cid rows r) = max (Suc (pending r)) (peak r) \<and>
   r_outcome (do_store_result P cid rows r) = r_outcome r"
  by (simp add: do_store_result_def pending_def peak_def split_def Let_def history_store_result
      time_time_conn time_time_outcome open_oks_mentions max_open_oks_mentions)

lemma do_mark_ok_effect:
  "pending (do_mark_ok P cid r) = Suc (pending r) \<and>
   peak (do_mark_ok P cid r) = max (Suc (pending r)) (peak r) \<and>
   r_outcome (do_mark_ok P cid r) = r_outcome r"
  by (simp add: do_mark_ok_def pending_def peak_def split_def Let_def mark_analyzed_ok_def
      execute_def time_time_conn time_time_outcome)

lemma do_mark_error_effect:
  "pending (do_mark_error P cid err r) = pending r \<and>
   peak (do_mark_error P cid err r) = peak r \<and>
   r_outcome (do_mark_error P cid err r) = r_outcome r"
  using open_oks_le_max [of "history (r_conn r)"]
  by (simp add: do_mark_error_def pending_def peak_def split_def Let_def mark_analyzed_error_def
      execute_def time_time_conn time_time_outcome)

lemma do_commit_effect:
  "pending (do_commit r) = 0 \<and> peak (do_commit r) = peak r \<and>
   r_outcome (do_commit r) = r_outcome r \<and> all_committed (do_commit r)"
  by (simp add: do_commit_def pending_def peak_def commit_def all_committed_def)

lemma do_cleanup_effect:
  "pending (do_cleanup P r) \<le> pending r \<and> peak (do_cleanup P r) = peak r \<and>
   r_outcome (do_cleanup P r) = r_outcome r \<and>
   (all_committed r \<longrightarrow> all_committed (do_cleanup P r))"
proof -
  let ?c = "r_conn r"
  let ?c' = "fst (cleanup_invalid_tickers (cfg_unicode P) (enable_yfinance_validation P)
          (is_real_ticker_yf P) ?c (analysis_tag P))"
  have c: "r_conn (do_cleanup P r) = ?c'" and o: "r_outcome (do_cleanup P r) = r_outcome r"
    by (simp_all add: do_cleanup_def)
  have d: "?c' = ?c \<or> durable ?c' = tables ?c'"
    by (auto simp: cleanup_invalid_tickers_def Let_def commit_def)
  from history_cleanup_invalid_tickers
    [of "cfg_unicode P" "enable_yfinance_validation P" "is_real_ticker_yf P" ?c "analysis_tag P"]
  show ?thesis
  proof
    assume "history ?c' = history ?c"
    with c o d show ?thesis by (auto simp: pending_def peak_def all_committed_def)
  next
    assume h: "history ?c' =
      Commit # rev (map (DeleteMentions (analysis_tag P))
        (chunks (ticker_list (sort (find_invalid_tickers (cfg_unicode P)
           (enable_yfinance_validation P) (is_real_ticker_yf P)
           (fetch_distinct_mentioned_tickers (tables ?c) (analysis_tag P))))))) @ history ?c"
    have "max_open_oks (history ?c') = max_open_oks (history ?c)"
      unfolding h by (simp add: rev_map max_open_oks_deletes)
    moreover have "open_oks (history ?c') = 0" unfolding h by simp
    ultimately show ?thesis using c o d
      by (auto simp: pending_def peak_def all_committed_def)
  qed
qed

lemma set_reason_effect:
  "pending (set_reason x r) = pending r \<and> peak (set_reason x r) = peak r \<and>
   analyzed (r_outcome (set_reason x r)) = analyzed (r_outcome r) \<and>
   (all_committed (set_reason x r) \<longleftrightarrow> all_committed r)"
  by (simp add: set_reason_def pending_def peak_def all_committed_def)

lemma inc_errors_effect:
  "pending (inc_errors r) = pending r \<and> peak (inc_errors r) = peak r \<and>
   analyzed (r_outcome (inc_errors r)) = analyzed (r_outcome r)"
  by (simp add: inc_errors_def pending_def peak_def)

lemma inc_calls_effect:
  "pending (inc_calls r) = pending r \<and> peak (inc_calls r) = peak r \<and>
   analyzed (r_outcome (inc_calls r)) = analyzed (r_outcome r)"
  by (simp add: inc_calls_def pending_def peak_def)

lemma inc_analyzed_effect:
  "pending (inc_analyzed r) = pending r \<and> peak (inc_analyzed r) = peak r \<and>
   analyzed (r_outcome (inc_analyzed r)) = Suc (analyzed (r_outcome r))"
  by (simp add: inc_analyzed_def pending_def peak_def)

lemma poll_effect:
  "pending (snd (should_abort r)) = pending r \<and> peak (snd (should_abort r)) = peak r \<and>
   r_outcome (snd (should_abort r)) = r_outcome r \<and>
   pending (snd (deadline_reached P r)) = pending r \<and>
   peak (snd (deadline_reached P r)) = peak r \<and>
   r_outcome (snd (deadline_reached P r)) = r_outcome r"
  by (simp add: pending_def peak_def should_abort_frame deadline_reached_frame)


section \<open>The commits of the run\<close>

lemma stop_ctrl_c_effect:
  "fst (stop_ctrl_c P r) = Returned (r_outcome (snd (stop_ctrl_c P r))) \<and>
   peak (snd (stop_ctrl_c P r)) = peak r \<and> all_committed (snd (stop_ctrl_c P r)) \<and>
   stopped_reason (r_outcome (snd (stop_ctrl_c P r))) = Some CtrlC"
  using do_cleanup_effect [of P "set_reason CtrlC (do_commit r)"]
    set_reason_effect [of CtrlC "do_commit r"] do_commit_effect [of r]
  by (simp add: stop_ctrl_c_def Let_def set_reason_def)

lemma stop_timeout_effect:
  "fst (stop_timeout P r) = Returned (r_outcome (snd (stop_timeout P r))) \<and>
   peak (snd (stop_timeout P r)) = peak r \<and> all_committed (snd (stop_timeout P r)) \<and>
   stopped_reason (r_outcome (snd (stop_timeout P r))) = Some Timeout"
  using do_cleanup_effect [of P "do_commit (set_reason Timeout r)"]
    do_commit_effect [of "set_reason Timeout r"] set_reason_effect [of Timeout r]
  by (simp add: stop_timeout_def Let_def set_reason_def do_commit_def)

lemma checkpoint_effect:
  "case checkpoint P r of
     Inl (res, r') \<Rightarrow> (\<exists>out. res = Returned out) \<and> peak r' = peak r \<and> all_committed r'
   | Inr r2 \<Rightarrow> pending r2 = pending r \<and> peak r2 = peak r \<and> r_outcome r2 = r_outcome r \<and>
       r_conn r2 = r_conn r"
proof -
  obtain ab r1 where a: "should_abort r = (ab, r1)" by (cases "should_abort r")
  obtain late r2 where d: "deadline_reached P r1 = (late, r2)" by (cases "deadline_reached P r1")
  from a poll_effect [of r P] should_abort_frame [of r]
  have r1: "pending r1 = pending r" "peak r1 = peak r" "r_outcome r1 = r_outcome r"
    "r_conn r1 = r_conn r" by simp_all
  from d poll_effect [of r1 P] deadline_reached_frame [of P r1] r1
  have r2: "pending r2 = pending r" "peak r2 = peak r" "r_outcome r2 = r_outcome r"
    "r_conn r2 = r_conn r" by simp_all
  show ?thesis
  proof (cases ab)
    case True
    with a stop_ctrl_c_effect [of P r1] r1 show ?thesis
      by (cases "stop_ctrl_c P r1") (auto simp: checkpoint_def)
  next
    case False
    show ?thesis
    proof (cases late)
      case True
      with a d False stop_timeout_effect [of P r2] r2 show ?thesis
        by (cases "stop_timeout P r2") (auto simp: checkpoint_def)
    next
      case late: False
      with a d False r2 show ?thesis by (simp add: checkpoint_def)
    qed
  qed
qed

lemma mod_step:
  assumes "every dvd K" and "0 < K" and "Suc a mod every \<noteq> 0"
  shows "Suc a mod K = Suc (a mod K)"
proof -
  have "Suc a mod K \<noteq> 0"
  proof
    assume "Suc a mod K = 0"
    then have "K dvd Suc a" by (simp add: mod_eq_0_iff_dvd)
    with assms(1) have "every dvd Suc a" by (rule dvd_trans)
    with assms(3) show False by (simp add: mod_eq_0_iff_dvd)
  qed
  then show ?thesis by (simp add: mod_Suc split: if_splits)
qed

lemma count_analyzed_inv:
  assumes inv: "commit_inv K r0" and dvd: "every dvd K" and K: "0 < K"
    and r1: "pending r1 = Suc (pending r0)" "peak r1 = max (Suc (pending r0)) (peak r0)"
      "analyzed (r_outcome r1) = analyzed (r_outcome r0)"
  shows "commit_inv K (count_analyzed every r1)"
proof -
  let ?a = "analyzed (r_outcome r0)"
  from inv have p: "pending r0 \<le> ?a mod K" and k: "peak r0 \<le> K"
    by (simp_all add: commit_inv_def)
  from K have "?a mod K < K" by simp
  with p have s: "Suc (pending r0) \<le> K" by simp
  from r1 inc_analyzed_effect [of r1]
  have i: "pending (inc_analyzed r1) = Suc (pending r0)"
    "peak (inc_analyzed r1) = max (Suc (pending r0)) (peak r0)"
    "analyzed (r_outcome (inc_analyzed r1)) = Suc ?a" by simp_all
  show ?thesis
  proof (cases "Suc ?a mod every = 0")
    case True
    with i do_commit_effect [of "inc_analyzed r1"] s k show ?thesis
      by (simp add: count_analyzed_def Let_def commit_inv_def)
  next
    case False
    from mod_step [OF dvd K False] have "Suc ?a mod K = Suc (?a mod K)" .
    with False i p s k show ?thesis
      by (simp add: count_analyzed_def Let_def commit_inv_def)
  qed
qed

lemma handle_exception_effect:
  assumes "commit_inv K r"
  shows "case handle_exception P cid e r of
           (Reraise, r') \<Rightarrow> is_fatal_auth e \<and> peak r' \<le> K \<and> all_committed r'
         | (Return, r') \<Rightarrow> peak r' \<le> K \<and> all_committed r'
         | (Retry, r') \<Rightarrow> r' = r
         | (Break, r') \<Rightarrow> commit_inv K r'"
proof -
  let ?m = "do_mark_error P cid (error_text e) r"
  from assms have k: "peak r \<le> K" by (simp add: commit_inv_def)
  have m: "peak ?m = peak r" "r_outcome ?m = r_outcome r"
    using do_mark_error_effect [of P cid "error_text e" r] by simp_all
  have q: "peak (do_cleanup P (set_reason Quota (do_commit ?m))) = peak r \<and>
           all_committed (do_cleanup P (set_reason Quota (do_commit ?m)))"
    using do_cleanup_effect [of P "set_reason Quota (do_commit ?m)"]
      set_reason_effect [of Quota "do_commit ?m"] do_commit_effect [of ?m] m
    by simp
  have b: "commit_inv K (do_commit (inc_errors ?m))"
    using do_commit_effect [of "inc_errors ?m"] inc_errors_effect [of ?m] m k
    by (simp add: commit_inv_def)
  from k q b do_commit_effect [of r] show ?thesis
    by (simp add: handle_exception_def quota_stop_def item_error_def)
qed

lemma attempt_once_inv:
  assumes inv: "commit_inv K r" and dvd: "10 dvd K" and K: "0 < K"
  shows "case attempt_once P cid attempt resp r of
           Inl (ro, r') \<Rightarrow> loop_post K ro r' \<and> (\<forall>e. ro = Some (Raised e) \<longrightarrow> is_fatal_auth e)
         | Inr r' \<Rightarrow> r' = r"
proof (cases resp)
  case (Parsed ms)
  let ?s = "do_store_result P cid (merge_mentions (cfg_unicode P) ms) (inc_calls r)"
  from inv inc_calls_effect [of r] have i: "commit_inv K (inc_calls r)"
    by (simp add: commit_inv_def inc_calls_def pending_def peak_def)
  have "commit_inv K (count_analyzed 10 ?s)"
    using do_store_result_effect [of P cid "merge_mentions (cfg_unicode P) ms" "inc_calls r"]
    by (intro count_analyzed_inv [OF i dvd K]) simp_all
  with Parsed show ?thesis by (simp add: attempt_once_def loop_post_def)
next
  case (Raises e)
  from inv have k: "peak r \<le> K" by (simp add: commit_inv_def)
  obtain act r' where h: "handle_exception P cid e r = (act, r')"
    by (cases "handle_exception P cid e r")
  with handle_exception_effect [OF inv, where P = P and cid = cid and e = e] Raises k show ?thesis
    by (cases act) (auto simp: attempt_once_def loop_post_def split: option.splits)
next
  case Interrupt
  from inv have k: "peak r \<le> K" by (simp add: commit_inv_def)
  with Interrupt stop_ctrl_c_effect [of P r] show ?thesis
    by (cases "stop_ctrl_c P r") (auto simp: attempt_once_def loop_post_def)
qed

lemma attempt_loop_inv:
  assumes "commit_inv K r" and "10 dvd K" and "0 < K"
  shows "loop_post K (fst (attempt_loop P cid attempt rs r))
           (snd (snd (attempt_loop P cid attempt rs r))) \<and>
         (\<forall>e. fst (attempt_loop P cid attempt rs r) = Some (Raised e) \<longrightarrow> is_fatal_auth e)"
  using assms
proof (induction rs arbitrary: attempt r)
  case Nil
  then have k: "peak r \<le> K" by (simp add: commit_inv_def)
  with checkpoint_effect [where P = P and r = r] show ?case
    by (cases "checkpoint P r") (auto simp: loop_post_def)
next
  case (Cons resp rs)
  then have k: "peak r \<le> K" by (simp add: commit_inv_def)
  show ?case
  proof (cases "checkpoint P r")
    case (Inl x)
    with checkpoint_effect [where P = P and r = r] k show ?thesis
      by (cases x) (auto simp: loop_post_def)
  next
    case (Inr r2)
    with checkpoint_effect [where P = P and r = r] Cons.prems(1) have i2: "commit_inv K r2"
      by (simp add: commit_inv_def)
    show ?thesis
    proof (cases "attempt_once P cid attempt resp r2")
      case (Inl x)
      with attempt_once_inv [OF i2 Cons.prems(2,3), where P = P and cid = cid and attempt = attempt and resp = resp] Inr show ?thesis
        by (cases x) simp
    next
      case r': (Inr r')
      with attempt_once_inv [OF i2 Cons.prems(2,3), where P = P and cid = cid and attempt = attempt and resp = resp] have "r' = r2"
        by simp
      with i2 have "commit_inv K r'" by simp
      from Cons.IH [OF this Cons.prems(2,3), of "attempt + 1"] Inr r' show ?thesis by simp
    qed
  qed
qed

lemma analyze_loop_inv:
  assumes "commit_inv K r" and "10 dvd K" and "0 < K"
    and "enable_keyword_shortcut P \<longrightarrow> 50 dvd K"
  shows "loop_post K (Some (fst (analyze_loop P cands rs r)))
           (snd (snd (analyze_loop P cands rs r))) \<and>
         (\<forall>e. fst (analyze_loop P cands rs r) = Raised e \<longrightarrow> is_fatal_auth e)"
  using assms
proof (induction cands arbitrary: rs r)
  case Nil
  then have k: "peak r \<le> K" by (simp add: commit_inv_def)
  with do_cleanup_effect [of P "do_commit r"] do_commit_effect [of r] show ?case
    by (simp add: loop_post_def Let_def)
next
  case (Cons cand cands)
  then have k: "peak r \<le> K" by (simp add: commit_inv_def)
  show ?case
  proof (cases "checkpoint P r")
    case (Inl x)
    with checkpoint_effect [where P = P and r = r] k show ?thesis
      by (cases x) (auto simp: loop_post_def)
  next
    case (Inr r2)
    with checkpoint_effect [where P = P and r = r] Cons.prems(1) have i2: "commit_inv K r2"
      by (simp add: commit_inv_def)
    let ?text = "strip (cfg_unicode P) (snd cand)"
    show ?thesis
    proof (cases "?text = []")
      case True
      with Inr Cons.IH [OF i2 Cons.prems(2,3,4), of rs] show ?thesis by simp
    next
      case False
      show ?thesis
      proof (cases "enable_keyword_shortcut P \<and> \<not> has_finance_hint P ?text")
        case True
        with Cons.prems(4) have d: "50 dvd K" by simp
        have "commit_inv K (count_analyzed 50 (do_mark_ok P (fst cand) r2))"
          using do_mark_ok_effect [of P "fst cand" r2]
          by (intro count_analyzed_inv [OF i2 d Cons.prems(3)]) simp_all
        from Cons.IH [OF this Cons.prems(2,3,4), of rs] Inr False True show ?thesis
          by simp
      next
        case no: False
        obtain ro rs' r' where a: "attempt_loop P (fst cand) 0 rs r2 = (ro, rs', r')"
          by (cases "attempt_loop P (fst cand) 0 rs r2")
        from attempt_loop_inv [OF i2 Cons.prems(2,3), of P "fst cand" 0 rs] a
        have p: "loop_post K ro r'" and f: "\<forall>e. ro = Some (Raised e) \<longrightarrow> is_fatal_auth e"
          by simp_all
        show ?thesis
        proof (cases ro)
          case None
          with p have "commit_inv K r'" by (simp add: loop_post_def)
          from Cons.IH [OF this Cons.prems(2,3,4), of rs'] Inr False no a None show ?thesis
            by auto
        next
          case (Some res)
          with p f Inr False no a show ?thesis by auto
        qed
      qed
    qed
  qed
qed


section \<open>The commit policy of the run\<close>

lemma ex_plain_candidates:
  "fetch_candidates ex_plain_db ex_tag 5000 False None False =
     map (\<lambda>i. ([97 + i], str_of ''nice weather'')) (rev [0 ..< 11])"
  by (simp add: fetch_candidates_def fetch_rows_def sql_limit_def order_by_created_desc_def
      eligible_rows_def left_join_def status_selected_def subreddit_selected_def
      ex_plain_db_def ex_plain_def upt_conv_Cons)

text \<open>
  C5, as the code has it. In a run that starts on a connection without earlier
  statements, the number of "ok" status rows written and not yet committed never passes
  10 when the keyword shortcut is off, and never passes 50 when it is on (line 296 commits
  at every 50th analyzed item only, and line 327 tests the same counter). This holds at
  every point of the run, also of one that goes on retrying. And whenever the run returns
  an outcome (normal completion, deadline, cancellation, quota stop) or raises the
  exception of the extraction call again, which it does for fatal authentication
  failures only, everything written is committed.
\<close>

theorem analyze_commits:
  assumes "history c = []"
  shows "max_open_oks (history (r_conn (snd (snd (analyze P c w rs))))) \<le>
           (if enable_keyword_shortcut P then 50 else 10) \<and>
         (stops_committed (fst (analyze P c w rs)) \<longrightarrow>
            durable (r_conn (snd (snd (analyze P c w rs)))) =
            tables (r_conn (snd (snd (analyze P c w rs))))) \<and>
         (\<forall>e. fst (analyze P c w rs) = Raised e \<longrightarrow> is_fatal_auth e)"
proof -
  let ?r = "\<lparr>r_conn = c,
             r_outcome = \<lparr>analyzed = 0, errors = 0, analyzed_model_calls = 0,
                          stopped_reason = None\<rparr>,
             r_world = w\<rparr>"
  let ?K = "commit_every P"
  from assms have i: "commit_inv ?K ?r"
    by (simp add: commit_inv_def pending_def peak_def)
  have k: "10 dvd ?K" "0 < ?K" "enable_keyword_shortcut P \<longrightarrow> 50 dvd ?K"
    by (simp_all add: commit_every_def)
  show ?thesis
  proof (cases "have_api_key P")
    case False
    with assms show ?thesis by (simp add: analyze_def)
  next
    case True
    let ?cands = "fetch_candidates (tables c) (analysis_tag P) (limit P) (retry_errors P)
                   (subreddits P) False"
    from True have a: "analyze P c w rs = analyze_loop P ?cands rs ?r"
      by (simp add: analyze_def)
    from analyze_loop_inv [OF i k, of ?cands rs] show ?thesis
      unfolding a by (auto simp: loop_post_def peak_def all_committed_def commit_every_def)
  qed
qed

lemmas ex_run_defs = analyze_def ex_config_def quiet_world_def conn_of_def checkpoint_def
  should_abort_def deadline_reached_def has_deadline_def time_time_def
  do_mark_ok_def do_commit_def do_cleanup_def cleanup_invalid_tickers_def count_analyzed_def
  inc_analyzed_def mark_analyzed_ok_def execute_def commit_def insert_or_replace_def
  analysis_key_def strip_def ascii_def ascii_isspace_def str_of_def

theorem analyze_commits_witness:
  "history (conn_of ex_db) = [] \<and>
   fst (analyze ex_config (conn_of ex_db) quiet_world [Parsed [(str_of ''$tsla'', Bullish)]]) =
     Returned \<lparr>analyzed = 1, errors = 0, analyzed_model_calls = 1, stopped_reason = None\<rparr> \<and>
   max_open_oks (history (r_conn (snd (snd
     (analyze ex_config (conn_of ex_db) quiet_world [Parsed [(str_of ''$tsla'', Bullish)]])))))
     \<le> 10 \<and>
   durable (r_conn (snd (snd
     (analyze ex_config (conn_of ex_db) quiet_world [Parsed [(str_of ''$tsla'', Bullish)]])))) =
   tables (r_conn (snd (snd
     (analyze ex_config (conn_of ex_db) quiet_world [Parsed [(str_of ''$tsla'', Bullish)]])))) \<and>
   fst (analyze ex_config (conn_of ex_db) quiet_world [Raises ex_auth_error]) =
     Raised ex_auth_error \<and>
   is_fatal_auth ex_auth_error \<and>
   durable (r_conn (snd (snd (analyze ex_config (conn_of ex_db) quiet_world
     [Raises ex_auth_error])))) =
   tables (r_conn (snd (snd (analyze ex_config (conn_of ex_db) quiet_world
     [Raises ex_auth_error]))))"
proof -
  have h: "history (conn_of ex_db) = []" by (simp add: conn_of_def)
  have c: "fetch_candidates (tables (conn_of ex_db)) (analysis_tag ex_config) (limit ex_config)
        (retry_errors ex_config) (subreddits ex_config) False =
      [(str_of ''c1'', str_of ''buy TSLA'')]"
    by (simp add: ex_fetch_defs ex_config_def conn_of_def)
  have v: "fst (analyze ex_config (conn_of ex_db) quiet_world
        [Parsed [(str_of ''$tsla'', Bullish)]]) =
     Returned \<lparr>analyzed = 1, errors = 0, analyzed_model_calls = 1, stopped_reason = None\<rparr>"
    unfolding analyze_def c
    by (simp add: ex_run_defs Let_def sublist_code attempt_once_def do_store_result_def
        inc_calls_def)
  have f: "is_fatal_auth ex_auth_error"
    by (simp add: is_fatal_auth_def isinstance_def ex_auth_error_def)
  have u: "fst (analyze ex_config (conn_of ex_db) quiet_world [Raises ex_auth_error]) =
     Raised ex_auth_error"
    unfolding analyze_def c using f
    by (simp add: ex_run_defs Let_def sublist_code attempt_once_def handle_exception_def)
  from analyze_commits [OF h, of ex_config quiet_world "[Parsed [(str_of ''$tsla'', Bullish)]]"] v
  have a: "max_open_oks (history (r_conn (snd (snd
     (analyze ex_config (conn_of ex_db) quiet_world [Parsed [(str_of ''$tsla'', Bullish)]])))))
     \<le> 10 \<and>
   durable (r_conn (snd (snd
     (analyze ex_config (conn_of ex_db) quiet_world [Parsed [(str_of ''$tsla'', Bullish)]])))) =
   tables (r_conn (snd (snd
     (analyze ex_config (conn_of ex_db) quiet_world [Parsed [(str_of ''$tsla'', Bullish)]]))))"
    by (simp add: ex_config_def)
  from analyze_commits [OF h, of ex_config quiet_world "[Raises ex_auth_error]"] u
  have b: "durable (r_conn (snd (snd (analyze ex_config (conn_of ex_db) quiet_world
     [Raises ex_auth_error])))) =
   tables (r_conn (snd (snd (analyze ex_config (conn_of ex_db) quiet_world
     [Raises ex_auth_error]))))"
    by simp
  from h v a u f b show ?thesis by simp
qed

text \<open>
  C5 as stated fails with the keyword shortcut on: of eleven records without a finance
  keyword, all eleven get their "ok" row before the first commit, which is the one at
  the end of the run.
\<close>

theorem analyze_commits_counterexample:
  "fst (analyze (ex_config\<lparr>enable_keyword_shortcut := True\<rparr>) (conn_of ex_plain_db)
         quiet_world []) =
     Returned \<lparr>analyzed = 11, errors = 0, analyzed_model_calls = 0, stopped_reason = None\<rparr> \<and>
   max_open_oks (history (r_conn (snd (snd
     (analyze (ex_config\<lparr>enable_keyword_shortcut := True\<rparr>) (conn_of ex_plain_db)
        quiet_world []))))) = 11"
proof -
  have c: "fetch_candidates (tables (conn_of ex_plain_db))
        (analysis_tag (ex_config\<lparr>enable_keyword_shortcut := True\<rparr>))
        (limit (ex_config\<lparr>enable_keyword_shortcut := True\<rparr>))
        (retry_errors (ex_config\<lparr>enable_keyword_shortcut := True\<rparr>))
        (subreddits (ex_config\<lparr>enable_keyword_shortcut := True\<rparr>)) False =
     map (\<lambda>i. ([97 + i], str_of ''nice weather'')) (rev [0 ..< 11])"
    using ex_plain_candidates by (simp add: ex_config_def conn_of_def)
  show ?thesis
    unfolding analyze_def c
    by (simp add: ex_run_defs upt_conv_Cons Let_def sublist_code)
qed


section \<open>The classification of failures\<close>

lemma classify_spec_if:
  "classify_spec U e =
     (if is_fatal_auth e then FatalAuth
      else if isinstance e [RateLimitError] \<and> is_quota_exhausted U e then QuotaExhausted
      else if is_retryable e then Transient
      else PermanentItemError)"
  by (simp add: classify_spec_def)

lemma rate_limit_retryable: "isinstance e [RateLimitError] \<Longrightarrow> is_retryable e"
  by (simp add: isinstance_def is_retryable_def)

lemma status_of_insert:
  "status_of (d\<lparr>comment_analysis := insert_or_replace analysis_key row (comment_analysis d)\<rparr>)
     (a_tag row) (a_comment_id row) = [a_status row] \<and>
   map a_error (filter (\<lambda>a. a_comment_id a = a_comment_id row \<and> a_tag a = a_tag row)
     (insert_or_replace analysis_key row (comment_analysis d))) = [a_error row]"
proof -
  have "(\<lambda>a. a_comment_id a = a_comment_id row \<and> a_tag a = a_tag row) =
        (\<lambda>a. analysis_key a = analysis_key row)"
    by (auto simp: analysis_key_def)
  then show ?thesis
    by (simp add: status_of_def filter_key_insert_or_replace)
qed

lemma do_mark_error_row:
  "status_of (tables (r_conn (do_mark_error P cid err r))) (analysis_tag P) cid = [Error] \<and>
   map a_error (filter (\<lambda>a. a_comment_id a = cid \<and> a_tag a = analysis_tag P)
     (comment_analysis (tables (r_conn (do_mark_error P cid err r))))) = [Some (take 2000 err)]"
  using status_of_insert [where d = "tables (r_conn r)" and row =
      "\<lparr>a_tag = analysis_tag P, a_comment_id = cid, a_model = model P,
        a_analyzed_at = fst (time_time r), a_status = Error, a_error = Some (take 2000 err)\<rparr>"]
  by (simp add: do_mark_error_def split_def Let_def tables_mark_analyzed_error time_time_conn)

lemma comment_analysis_after:
  "comment_analysis (tables (r_conn (do_commit r))) = comment_analysis (tables (r_conn r))"
  "comment_analysis (tables (r_conn (do_cleanup P r))) = comment_analysis (tables (r_conn r))"
  "comment_analysis (tables (r_conn (set_reason x r))) = comment_analysis (tables (r_conn r))"
  "comment_analysis (tables (r_conn (inc_errors r))) = comment_analysis (tables (r_conn r))"
  by (simp_all add: do_commit_def do_cleanup_def set_reason_def inc_errors_def tables_commit
      frame_cleanup_invalid_tickers)

lemma status_of_after:
  "status_of (tables (r_conn (do_commit r))) = status_of (tables (r_conn r))"
  "status_of (tables (r_conn (do_cleanup P r))) = status_of (tables (r_conn r))"
  "status_of (tables (r_conn (set_reason x r))) = status_of (tables (r_conn r))"
  "status_of (tables (r_conn (inc_errors r))) = status_of (tables (r_conn r))"
  by (simp_all add: status_of_def fun_eq_iff comment_analysis_after)

lemma outcome_after:
  "r_outcome (do_commit r) = r_outcome r"
  "r_outcome (do_cleanup P r) = r_outcome r"
  "r_outcome (do_mark_error P cid err r) = r_outcome r"
  by (simp_all add: do_commit_def do_cleanup_def do_mark_error_def split_def Let_def
      time_time_outcome)

text \<open>
  C3. What the handler does with a failure of the extraction call is what the
  classification in the order fatal authentication, exhausted quota, transient,
  permanent, first match wins, prescribes: a fatal authentication failure is raised again
  after a commit, and nothing is marked or counted; an exhausted quota marks the item
  "error" with the failure text (cut at 2000 characters) and makes the run return with the
  quota stop reason; a transient failure leaves the state as it is and the attempt is
  repeated; any other failure marks the item "error", counts it and goes on to the next
  candidate. In particular a rate-limit error whose message matches a quota pattern, and
  which is no authentication failure, is of the transient kind as well, and is classified
  as exhausted quota: the attempt loop returns the outcome with the quota stop reason and
  retries nothing.
\<close>

theorem classifier_order:
  "handle_exception P cid e r =
     (case classify_spec (cfg_unicode P) e of
        FatalAuth \<Rightarrow> (Reraise, do_commit r)
      | QuotaExhausted \<Rightarrow> (Return, quota_stop P cid e r)
      | Transient \<Rightarrow> (Retry, r)
      | PermanentItemError \<Rightarrow> (Break, item_error P cid e r)) \<and>
   r_outcome (do_commit r) = r_outcome r \<and>
   comment_analysis (tables (r_conn (do_commit r))) = comment_analysis (tables (r_conn r)) \<and>
   r_outcome (quota_stop P cid e r) = (r_outcome r)\<lparr>stopped_reason := Some Quota\<rparr> \<and>
   status_of (tables (r_conn (quota_stop P cid e r))) (analysis_tag P) cid = [Error] \<and>
   map a_error (filter (\<lambda>a. a_comment_id a = cid \<and> a_tag a = analysis_tag P)
     (comment_analysis (tables (r_conn (quota_stop P cid e r))))) =
     [Some (take 2000 (error_text e))] \<and>
   r_outcome (item_error P cid e r) = (r_outcome r)\<lparr>errors := errors (r_outcome r) + 1\<rparr> \<and>
   status_of (tables (r_conn (item_error P cid e r))) (analysis_tag P) cid = [Error] \<and>
   map a_error (filter (\<lambda>a. a_comment_id a = cid \<and> a_tag a = analysis_tag P)
     (comment_analysis (tables (r_conn (item_error P cid e r))))) =
     [Some (take 2000 (error_text e))] \<and>
   (isinstance e [RateLimitError] \<and> is_quota_exhausted (cfg_unicode P) e \<and>
    \<not> is_fatal_auth e \<longrightarrow>
      is_retryable e \<and> classify_spec (cfg_unicode P) e = QuotaExhausted \<and>
      (checkpoint P r0 = Inr r \<longrightarrow>
         attempt_loop P cid attempt (Raises e # rs) r0 =
           (Some (Returned ((r_outcome r)\<lparr>stopped_reason := Some Quota\<rparr>)), rs,
            quota_stop P cid e r)))"
proof -
  let ?U = "cfg_unicode P"
  have a: "handle_exception P cid e r =
     (case classify_spec ?U e of
        FatalAuth \<Rightarrow> (Reraise, do_commit r)
      | QuotaExhausted \<Rightarrow> (Return, quota_stop P cid e r)
      | Transient \<Rightarrow> (Retry, r)
      | PermanentItemError \<Rightarrow> (Break, item_error P cid e r))"
    by (simp add: handle_exception_def classify_spec_if)
  have b: "r_outcome (do_commit r) = r_outcome r"
    "comment_analysis (tables (r_conn (do_commit r))) = comment_analysis (tables (r_conn r))"
    by (simp_all add: outcome_after comment_analysis_after)
  have d: "r_outcome (quota_stop P cid e r) = (r_outcome r)\<lparr>stopped_reason := Some Quota\<rparr>"
    by (simp add: quota_stop_def outcome_after set_reason_def)
  have f: "r_outcome (item_error P cid e r) = (r_outcome r)\<lparr>errors := errors (r_outcome r) + 1\<rparr>"
    by (simp add: item_error_def outcome_after inc_errors_def)
  have g: "status_of (tables (r_conn (quota_stop P cid e r))) (analysis_tag P) cid = [Error]"
    "map a_error (filter (\<lambda>a. a_comment_id a = cid \<and> a_tag a = analysis_tag P)
       (comment_analysis (tables (r_conn (quota_stop P cid e r))))) =
       [Some (take 2000 (error_text e))]"
    "status_of (tables (r_conn (item_error P cid e r))) (analysis_tag P) cid = [Error]"
    "map a_error (filter (\<lambda>a. a_comment_id a = cid \<and> a_tag a = analysis_tag P)
       (comment_analysis (tables (r_conn (item_error P cid e r))))) =
       [Some (take 2000 (error_text e))]"
    using do_mark_error_row [of P cid "error_text e" r]
    by (simp_all add: quota_stop_def item_error_def status_of_after comment_analysis_after)
  have i: "isinstance e [RateLimitError] \<and> is_quota_exhausted ?U e \<and> \<not> is_fatal_auth e \<longrightarrow>
      is_retryable e \<and> classify_spec ?U e = QuotaExhausted \<and>
      (checkpoint P r0 = Inr r \<longrightarrow>
         attempt_loop P cid attempt (Raises e # rs) r0 =
           (Some (Returned ((r_outcome r)\<lparr>stopped_reason := Some Quota\<rparr>)), rs,
            quota_stop P cid e r))"
  proof (intro impI conjI)
    assume h: "isinstance e [RateLimitError] \<and> is_quota_exhausted ?U e \<and> \<not> is_fatal_auth e"
    then show "is_retryable e" by (simp add: rate_limit_retryable)
    from h show cl: "classify_spec ?U e = QuotaExhausted" by (simp add: classify_spec_if)
    assume k: "checkpoint P r0 = Inr r"
    from cl a have "handle_exception P cid e r = (Return, quota_stop P cid e r)" by simp
    with k d show "attempt_loop P cid attempt (Raises e # rs) r0 =
           (Some (Returned ((r_outcome r)\<lparr>stopped_reason := Some Quota\<rparr>)), rs,
            quota_stop P cid e r)"
      by (simp add: attempt_once_def)
  qed
  from a b d f g i show ?thesis by blast
qed

lemma ex_config_fields:
  "cfg_unicode ex_config = ascii" "analysis_tag ex_config = ex_tag" "model ex_config = ex_model"
  "limit ex_config = 5000" "retry_errors ex_config = False" "subreddits ex_config = None"
  "have_api_key ex_config" "\<not> enable_keyword_shortcut ex_config"
  "\<not> enable_yfinance_validation ex_config" "\<not> has_deadline ex_config"
  by (simp_all add: ex_config_def has_deadline_def)

theorem classifier_order_witness:
  "isinstance ex_quota_error [RateLimitError] \<and> is_quota_exhausted ascii ex_quota_error \<and>
   \<not> is_fatal_auth ex_quota_error \<and> is_retryable ex_quota_error \<and>
   classify_spec ascii ex_quota_error = QuotaExhausted \<and>
   fst (analyze ex_config (conn_of ex_db) quiet_world [Raises ex_quota_error]) =
     Returned \<lparr>analyzed = 0, errors = 0, analyzed_model_calls = 0, stopped_reason = Some Quota\<rparr> \<and>
   status_of (tables (r_conn (snd (snd
     (analyze ex_config (conn_of ex_db) quiet_world [Raises ex_quota_error])))))
     ex_tag (str_of ''c1'') = [Error]"
proof -
  let ?r0 = "\<lparr>r_conn = conn_of ex_db,
     r_outcome = \<lparr>analyzed = 0, errors = 0, analyzed_model_calls = 0, stopped_reason = None\<rparr>,
     r_world = quiet_world\<rparr>"
  let ?q = "quota_stop ex_config (str_of ''c1'') ex_quota_error ?r0"
  have q: "is_quota_exhausted ascii ex_quota_error"
    by (simp add: is_quota_exhausted_def ex_quota_error_def ascii_def ascii_lower_char_def
        str_of_def sublist_code)
  have hyp: "isinstance ex_quota_error [RateLimitError] \<and>
      is_quota_exhausted (cfg_unicode ex_config) ex_quota_error \<and> \<not> is_fatal_auth ex_quota_error"
    using q by (simp add: ex_config_fields isinstance_def is_fatal_auth_def ex_quota_error_def)
  have k: "checkpoint ex_config ?r0 = Inr ?r0"
    by (simp add: checkpoint_def should_abort_def deadline_reached_def ex_config_fields
        quiet_world_def)
  note t = classifier_order [where P = ex_config and cid = "str_of ''c1''"
      and e = ex_quota_error and r = ?r0 and ?r0.0 = ?r0 and attempt = 0 and rs = "[]"]
  from t hyp k have l: "attempt_loop ex_config (str_of ''c1'') 0 [Raises ex_quota_error] ?r0 =
      (Some (Returned ((r_outcome ?r0)\<lparr>stopped_reason := Some Quota\<rparr>)), [], ?q)"
    by blast
  from t hyp have cl: "is_retryable ex_quota_error"
    "classify_spec (cfg_unicode ex_config) ex_quota_error = QuotaExhausted"
    by blast+
  from t have st: "status_of (tables (r_conn ?q)) (analysis_tag ex_config) (str_of ''c1'') =
      [Error]"
    by blast
  have c: "fetch_candidates (tables (conn_of ex_db)) (analysis_tag ex_config) (limit ex_config)
        (retry_errors ex_config) (subreddits ex_config) False =
      [(str_of ''c1'', str_of ''buy TSLA'')]"
    by (simp add: ex_fetch_defs ex_config_def conn_of_def)
  have s: "strip (cfg_unicode ex_config) (str_of ''buy TSLA'') \<noteq> []"
    by (simp add: ex_config_fields strip_def ascii_def ascii_isspace_def str_of_def)
  have a: "analyze ex_config (conn_of ex_db) quiet_world [Raises ex_quota_error] =
      (Returned ((r_outcome ?r0)\<lparr>stopped_reason := Some Quota\<rparr>), [], ?q)"
    unfolding analyze_def c using s
    by (simp add: ex_config_fields(7,8) k l Let_def del: attempt_loop.simps)
  from a st hyp cl show ?thesis by (simp add: ex_config_fields)
qed

section \<open>Candidates with a blank body\<close>

lemma blank_candidate_skipped:
  "strip (cfg_unicode P) (snd cand) = [] \<Longrightarrow> checkpoint P r = Inr r2 \<Longrightarrow>
   analyze_loop P (cand # cands) rs r = analyze_loop P cands rs r2"
  by simp



end
